theory Spec2Isabelle
  imports Complex_Main
begin

section \<open>Conventions\<close>

text \<open>
  The development embeds the numeric core of \<^verbatim>\<open>bangs_photometry.py\<close> (the classes
  \<^verbatim>\<open>ObservedCatalogue\<close> and \<^verbatim>\<open>Photometry\<close>) and of \<^verbatim>\<open>bangs_utils.py\<close>.

  numpy floating-point numbers are idealised as the reals: rounding, overflow and underflow are
  not represented. A numpy array is a list, a two-dimensional array a list of rows. Where the
  source divides under a guard that makes the divisor positive, the division is the one of the
  reals; where it divides without a guard, the division is \<open>np_divide\<close> below, whose value
  \<open>None\<close> stands for the non-finite number (inf or nan) that numpy produces, with a
  warning and no exception, for a zero divisor. Where the quotients are summed and compared
  afterwards, as in lines 475 to 479, the quotient is a \<open>np_float\<close>, which keeps inf and nan
  apart. A Python exception is a value \<open>Inl err\<close>.
\<close>

datatype py_error = IndexError | ValueError | ZeroDivisionError | KeyError | TypeError

text \<open>A \<^verbatim>\<open>for i in ...:\<close> loop whose body may raise: the first exception ends the loop.\<close>

fun for_loop :: "nat list \<Rightarrow> (nat \<Rightarrow> 's \<Rightarrow> py_error + 's) \<Rightarrow> 's \<Rightarrow> py_error + 's" where
  "for_loop [] body s = Inr s"
| "for_loop (i # is) body s =
     (case body i s of Inl err \<Rightarrow> Inl err | Inr s' \<Rightarrow> for_loop is body s')"

text \<open>Sequencing of two steps of which the first may raise.\<close>

definition and_then :: "py_error + 'a \<Rightarrow> ('a \<Rightarrow> py_error + 'b) \<Rightarrow> py_error + 'b" where
  "and_then r f = (case r of Inl err \<Rightarrow> Inl err | Inr x \<Rightarrow> f x)"

subsection \<open>numpy primitives on one-dimensional arrays\<close>

text \<open>\<^verbatim>\<open>x.repeat(n)\<close> for a scalar \<open>x\<close>.\<close>

definition repeat :: "'a \<Rightarrow> nat \<Rightarrow> 'a list" where
  "repeat x n = replicate n x"

text \<open>Elementwise \<^verbatim>\<open>a - b\<close>, \<^verbatim>\<open>a / b\<close>, \<^verbatim>\<open>a ** 2\<close> and \<^verbatim>\<open>a > b\<close> on arrays of one shape.\<close>

definition vsub :: "real list \<Rightarrow> real list \<Rightarrow> real list" where
  "vsub xs ys = map2 (-) xs ys"

definition vdiv :: "real list \<Rightarrow> real list \<Rightarrow> real list" where
  "vdiv xs ys = map2 (/) xs ys"

definition vsq :: "real list \<Rightarrow> real list" where
  "vsq xs = map (\<lambda>x. x\<^sup>2) xs"

definition vgt :: "real list \<Rightarrow> real list \<Rightarrow> bool list" where
  "vgt xs ys = map2 (\<lambda>x y. x > y) xs ys"

text \<open>\<^verbatim>\<open>np.count_nonzero\<close> of a boolean array and \<^verbatim>\<open>np.where(mask)[0]\<close>.\<close>

definition count_nonzero :: "bool list \<Rightarrow> nat" where
  "count_nonzero bs = length (filter (\<lambda>b. b) bs)"

definition np_where :: "bool list \<Rightarrow> nat list" where
  "np_where bs = filter (\<lambda>i. bs ! i) [0..<length bs]"

text \<open>
  \<^verbatim>\<open>a / b\<close> of two numpy floats with no guard on \<open>b\<close>: a zero divisor gives inf or nan
  (here \<open>None\<close>), never an exception.
\<close>

definition np_divide :: "real \<Rightarrow> real \<Rightarrow> real option" where
  "np_divide a b = (if b = 0 then None else Some (a / b))"

text \<open>
  The same quotient with the kind of its value: for a zero divisor numpy gives nan when the
  dividend is zero too, and otherwise the infinity of the dividend's sign (the divisors below
  are squares, so a zero divisor is the positive zero). \<open>np_add\<close> and \<open>np_greater\<close> are
  \<^verbatim>\<open>+\<close> and \<^verbatim>\<open>>\<close> on such values: nan absorbs every sum and makes every comparison
  false.
\<close>

datatype np_float = Finite real | PosInf | NegInf | NaN

definition np_true_divide :: "real \<Rightarrow> real \<Rightarrow> np_float" where
  "np_true_divide a b =
     (if b = 0 then (if a = 0 then NaN else if a > 0 then PosInf else NegInf)
      else Finite (a / b))"

fun np_add :: "np_float \<Rightarrow> np_float \<Rightarrow> np_float" where
  "np_add (Finite x) (Finite y) = Finite (x + y)"
| "np_add NaN _ = NaN"
| "np_add _ NaN = NaN"
| "np_add PosInf NegInf = NaN"
| "np_add NegInf PosInf = NaN"
| "np_add PosInf _ = PosInf"
| "np_add _ PosInf = PosInf"
| "np_add NegInf _ = NegInf"
| "np_add _ NegInf = NegInf"

fun np_greater :: "np_float \<Rightarrow> np_float \<Rightarrow> bool" where
  "np_greater (Finite x) (Finite y) = (x > y)"
| "np_greater NaN _ = False"
| "np_greater _ NaN = False"
| "np_greater PosInf PosInf = False"
| "np_greater PosInf _ = True"
| "np_greater _ PosInf = False"
| "np_greater NegInf _ = False"
| "np_greater _ NegInf = True"

section \<open>The posterior-predictive check of \<^verbatim>\<open>Photometry.plot_replicated_data\<close>\<close>

text \<open>
  The variables that are live at line 451 of \<^verbatim>\<open>bangs_photometry.py\<close>:
  \<^item> \<open>obs_flux\<close>, \<open>obs_flux_err\<close>: the observed photometry, already multiplied by \<open>1.E+09\<close>;
  \<^item> \<open>noiseless_flux\<close>: the array of shape \<open>(n_bands, n_replicated)\<close> filled from the
    marginal photometry at the rows \<open>row_index\<close>;
  \<^item> \<open>replic_field\<close>: the columns \<open>replic_data.data.field(i+1)\<close> of the replicated-data
    table, one per band, each with one entry per draw;
  \<^item> \<open>n_replicated\<close>: \<open>replic_data.data.field(0).size\<close>.
\<close>

record replicated_env =
  obs_flux :: "real list"
  obs_flux_err :: "real list"
  noiseless_flux :: "real list list"
  replic_field :: "real list list"
  n_replicated :: nat

text \<open>\<^verbatim>\<open>n_bands = len(replic_data.columns.names)-1\<close>: the table's columns but the first.\<close>

definition n_bands :: "replicated_env \<Rightarrow> nat" where
  "n_bands e = length (replic_field e)"

text \<open>
  Shapes that hold by construction: every column of a table has one entry per row, and
  \<open>noiseless_flux\<close> is created by \<^verbatim>\<open>np.zeros((n_bands, indices.size))\<close>; both observed
  arrays come from one call of \<open>extract_fluxes\<close>.
\<close>

definition shapes_ok :: "replicated_env \<Rightarrow> bool" where
  "shapes_ok e \<longleftrightarrow>
     length (noiseless_flux e) = n_bands e \<and>
     (\<forall>r \<in> set (noiseless_flux e). length r = n_replicated e) \<and>
     (\<forall>c \<in> set (replic_field e). length c = n_replicated e) \<and>
     length (obs_flux e) = length (obs_flux_err e)"

text \<open>Lines 460 and 461: the two discrepancies of band \<open>i\<close>, one entry per draw.\<close>

definition obs_discr_band :: "replicated_env \<Rightarrow> nat \<Rightarrow> real list" where
  "obs_discr_band e i =
     vdiv (vsq (vsub (repeat (obs_flux e ! i) (n_replicated e)) (noiseless_flux e ! i)))
          (vsq (repeat (obs_flux_err e ! i) (n_replicated e)))"

definition replic_scaled :: "real list \<Rightarrow> real list" where
  "replic_scaled col = map (\<lambda>x. x / (1 / 10 ^ 9)) col"

definition repl_discr_band :: "replicated_env \<Rightarrow> nat \<Rightarrow> real list" where
  "repl_discr_band e i =
     vdiv (vsq (vsub (replic_scaled (replic_field e ! i)) (noiseless_flux e ! i)))
          (vsq (repeat (obs_flux_err e ! i) (n_replicated e)))"

text \<open>
  Lines 457 to 465: the body of the loop over the bands. The state is the pair
  \<open>(p_value_bands, replic_fluxes)\<close>. \<^verbatim>\<open>1. * count / n_replicated\<close> divides a Python
  float by a Python int and raises for \<open>n_replicated = 0\<close>.
\<close>

definition p_value_band_step ::
  "replicated_env \<Rightarrow> nat \<Rightarrow> real list \<times> real list list \<Rightarrow> py_error + (real list \<times> real list list)" where
  "p_value_band_step e i st =
     (case st of (p_value_bands, replic_fluxes) \<Rightarrow>
        if length (obs_flux_err e) \<le> i then Inl IndexError
        else if obs_flux_err e ! i > 0 then
          (let obs_discr = obs_discr_band e i;
               repl_discr = repl_discr_band e i;
               replic_fluxes' = replic_fluxes[i := replic_scaled (replic_field e ! i)]
           in if n_replicated e = 0 then Inl ZeroDivisionError
              else Inr (p_value_bands[i := 1 * real (count_nonzero (vgt repl_discr obs_discr))
                                              / real (n_replicated e)],
                        replic_fluxes'))
        else Inr st)"

text \<open>Lines 455 to 465: both arrays start as zeros.\<close>

definition p_value_loop :: "replicated_env \<Rightarrow> py_error + (real list \<times> real list list)" where
  "p_value_loop e =
     for_loop [0..<n_bands e] (p_value_band_step e)
       (replicate (n_bands e) 0, replicate (n_bands e) (replicate (n_replicated e) 0))"

text \<open>Lines 32 and 467 to 469: the marker of every band.\<close>

definition p_value_lim :: real where
  "p_value_lim = 5 / 100"

definition loc_of :: "real list \<Rightarrow> nat list" where
  "loc_of p_value_bands = np_where (map (\<lambda>p. p \<le> p_value_lim) p_value_bands)"

text \<open>\<^verbatim>\<open>a[loc] = v\<close>: an index beyond the array raises.\<close>

definition assign_at :: "'a list \<Rightarrow> nat list \<Rightarrow> 'a \<Rightarrow> py_error + 'a list" where
  "assign_at a loc v =
     (if \<exists>i \<in> set loc. length a \<le> i then Inl IndexError
      else Inr (fold (\<lambda>i m. m[i := v]) loc a))"

definition markers_of :: "nat \<Rightarrow> real list \<Rightarrow> py_error + string list" where
  "markers_of nb p_value_bands =
     (let markers = repeat ''o'' nb;
          loc = loc_of p_value_bands
      in assign_at markers loc ''o'')"

subsection \<open>The joint discrepancy and the joint p-value (lines 452 and 472 to 479)\<close>

text \<open>\<^verbatim>\<open>v.reshape(nb, 1).repeat(n, 1)\<close>: the reshape raises unless \<open>v\<close> has \<open>nb\<close> entries.\<close>

definition reshape_repeat :: "real list \<Rightarrow> nat \<Rightarrow> nat \<Rightarrow> py_error + real list list" where
  "reshape_repeat v nb n =
     (if length v \<noteq> nb then Inl ValueError else Inr (map (\<lambda>x. repeat x n) v))"

text \<open>\<^verbatim>\<open>m[idx, :]\<close> with an array of row numbers.\<close>

definition take_rows :: "'a list \<Rightarrow> nat list \<Rightarrow> py_error + 'a list" where
  "take_rows m idx =
     (if \<exists>i \<in> set idx. length m \<le> i then Inl IndexError else Inr (map (\<lambda>i. m ! i) idx))"

definition msub :: "real list list \<Rightarrow> real list list \<Rightarrow> real list list" where
  "msub a b = map2 vsub a b"

text \<open>
  \<^verbatim>\<open>a / b\<close> on two-dimensional arrays of one shape. Nothing but the choice of the rows
  keeps the divisor from zero here, so the quotient is the one of \<open>np_true_divide\<close>.
\<close>

definition mdiv :: "real list list \<Rightarrow> real list list \<Rightarrow> np_float list list" where
  "mdiv a b = map2 (map2 np_true_divide) a b"

definition msq :: "real list list \<Rightarrow> real list list" where
  "msq a = map vsq a"

text \<open>
  \<^verbatim>\<open>np.sum(m, axis=0)\<close> of an array of shape \<open>(k, n)\<close>: the \<open>n\<close> column sums, which
  are \<open>0\<close> for \<open>k = 0\<close>.
\<close>

definition sum_axis0 :: "nat \<Rightarrow> np_float list list \<Rightarrow> np_float list" where
  "sum_axis0 n m = map (\<lambda>d. foldr np_add (map (\<lambda>r. r ! d) m) (Finite 0)) [0..<n]"

definition ok_bands :: "replicated_env \<Rightarrow> nat list" where
  "ok_bands e = np_where (map (\<lambda>x. x > 0) (obs_flux_err e))"

definition joint_discr ::
  "replicated_env \<Rightarrow> real list list \<Rightarrow> py_error + (np_float list \<times> np_float list)" where
  "joint_discr e replic_fluxes =
     and_then (reshape_repeat (obs_flux e) (n_bands e) (n_replicated e)) (\<lambda>ext_obs_flux.
     and_then (reshape_repeat (obs_flux_err e) (n_bands e) (n_replicated e)) (\<lambda>ext_obs_flux_err.
     and_then (take_rows ext_obs_flux (ok_bands e)) (\<lambda>obs_ok.
     and_then (take_rows (noiseless_flux e) (ok_bands e)) (\<lambda>noiseless_ok.
     and_then (take_rows ext_obs_flux_err (ok_bands e)) (\<lambda>err_ok.
     and_then (take_rows replic_fluxes (ok_bands e)) (\<lambda>replic_ok.
       Inr (sum_axis0 (n_replicated e) (mdiv (msq (msub obs_ok noiseless_ok)) (msq err_ok)),
            sum_axis0 (n_replicated e) (mdiv (msq (msub replic_ok noiseless_ok)) (msq err_ok)))))))))"

text \<open>Lines 478 and 479: the comparison of the two arrays of sums, and the fraction.\<close>

definition p_value_of :: "nat \<Rightarrow> np_float list \<Rightarrow> np_float list \<Rightarrow> py_error + real" where
  "p_value_of n repl_discr obs_discr =
     (if n = 0 then Inl ZeroDivisionError
      else Inr (1 * real (count_nonzero (map2 np_greater repl_discr obs_discr)) / real n))"

text \<open>Lines 452 to 479 in sequence: what the posterior-predictive check computes.\<close>

record ppc_statistics =
  p_value_bands :: "real list"
  markers :: "string list"
  joint_obs_discr :: "np_float list"
  joint_repl_discr :: "np_float list"
  p_value :: real

definition ppc :: "replicated_env \<Rightarrow> py_error + ppc_statistics" where
  "ppc e =
     and_then (p_value_loop e) (\<lambda>(pvb, replic_fluxes).
     and_then (markers_of (n_bands e) pvb) (\<lambda>mk.
     and_then (joint_discr e replic_fluxes) (\<lambda>(obs_discr, repl_discr).
     and_then (p_value_of (n_replicated e) repl_discr obs_discr) (\<lambda>p.
       Inr \<lparr>p_value_bands = pvb, markers = mk, joint_obs_discr = obs_discr,
            joint_repl_discr = repl_discr, p_value = p\<rparr>))))"

text \<open>
  A band put in front of position \<open>k\<close> of every per-band array: its observed flux and error,
  its row of noiseless fluxes and its column of replicated fluxes.
\<close>

definition insert_at :: "nat \<Rightarrow> 'a \<Rightarrow> 'a list \<Rightarrow> 'a list" where
  "insert_at k x xs = take k xs @ x # drop k xs"

definition insert_band ::
  "nat \<Rightarrow> real \<Rightarrow> real \<Rightarrow> real list \<Rightarrow> real list \<Rightarrow> replicated_env \<Rightarrow> replicated_env" where
  "insert_band k flux err noiseless replic e =
     e\<lparr>obs_flux := insert_at k flux (obs_flux e),
       obs_flux_err := insert_at k err (obs_flux_err e),
       noiseless_flux := insert_at k noiseless (noiseless_flux e),
       replic_field := insert_at k replic (replic_field e)\<rparr>"

subsection \<open>The residuals (lines 488 to 500)\<close>

text \<open>
  \<^verbatim>\<open>np.mean\<close> of a column divides by its size; the two residual expressions divide by
  \<open>obs_flux_err\<close> for every band, with no mask. The subtraction of \<open>obs_flux\<close> needs one
  entry per band.
\<close>

definition np_mean :: "real list \<Rightarrow> real option" where
  "np_mean col = np_divide (sum_list col) (real (length col))"

definition mean_residual :: "replicated_env \<Rightarrow> py_error + real option list" where
  "mean_residual e =
     (let mean_replic_fluxes =
            map (\<lambda>col. map_option (\<lambda>m. m / (1 / 10 ^ 9)) (np_mean col)) (replic_field e)
      in if length (obs_flux e) = n_bands e \<and> length (obs_flux_err e) = n_bands e
         then Inr (map2 (\<lambda>d err. Option.bind d (\<lambda>x. np_divide x err))
                     (map2 (\<lambda>m f. map_option (\<lambda>x. x - f) m) mean_replic_fluxes (obs_flux e))
                     (obs_flux_err e))
         else Inl ValueError)"

definition residual_fluxes :: "replicated_env \<Rightarrow> py_error + real option list list" where
  "residual_fluxes e =
     (let replic_fluxes = map replic_scaled (replic_field e)
      in and_then (reshape_repeat (obs_flux e) (n_bands e) (n_replicated e)) (\<lambda>ext_obs_flux.
         and_then (reshape_repeat (obs_flux_err e) (n_bands e) (n_replicated e)) (\<lambda>ext_obs_flux_err.
           Inr (map2 (map2 np_divide) (msub replic_fluxes ext_obs_flux) ext_obs_flux_err))))"

text \<open>The value that line 464 stores for a band with a positive error.\<close>

definition band_fraction :: "replicated_env \<Rightarrow> nat \<Rightarrow> real" where
  "band_fraction e i =
     real (count_nonzero (vgt (repl_discr_band e i) (obs_discr_band e i))) / real (n_replicated e)"

text \<open>The column sums of rows of real numbers.\<close>

definition column_sums :: "nat \<Rightarrow> real list list \<Rightarrow> real list" where
  "column_sums n m = map (\<lambda>d. sum_list (map (\<lambda>r. r ! d) m)) [0..<n]"

text \<open>Where band \<open>i\<close> is found once a band has been put in front of position \<open>k\<close>.\<close>

definition shift_band :: "nat \<Rightarrow> nat \<Rightarrow> nat" where
  "shift_band k i = (if i < k then i else Suc i)"

text \<open>
  An example for the residuals: two bands, of which the second has the observed error 0, and
  one draw.
\<close>

definition masked_band_example :: replicated_env where
  "masked_band_example =
     \<lparr>obs_flux = [10, 5], obs_flux_err = [1, 0], noiseless_flux = [[10], [5]],
      replic_field = [[12 / 10 ^ 9], [7 / 10 ^ 9]], n_replicated = 1\<rparr>"

section \<open>The observed photometry: \<^verbatim>\<open>ObservedCatalogue.extract_fluxes\<close> and its two callers\<close>

text \<open>
  The photometric filters as \<^verbatim>\<open>extract_fluxes\<close> and the plotters read them:
  \<^verbatim>\<open>filters.n_bands\<close>, \<^verbatim>\<open>filters.units\<close> and the columns of \<^verbatim>\<open>filters.data\<close>.
\<close>

record filters =
  filters_n_bands :: nat
  flux_colName :: "string list"
  flux_errcolName :: "string list"
  min_rel_err :: "real list"
  units :: real
  wl_eff :: "real list"

text \<open>
  A catalogue row gives a number for each of its column names; the catalogue holds the column
  names (\<^verbatim>\<open>data.dtype.names\<close>) and one row per object ID.
\<close>

type_synonym row = "string \<rightharpoonup> real"

record 'id catalogue =
  dtype_names :: "string list"
  rows :: "'id \<rightharpoonup> row"

text \<open>
  Modelled from the spec: \<^verbatim>\<open>extract_row\<close> of \<^verbatim>\<open>bangs_utils\<close> is imported by
  \<^verbatim>\<open>bangs_photometry.py\<close> but its definition is not among the sources. The spec says that
  the input catalogue record is keyed by object ID and exposes named fields, and that a missing
  catalogue row is fatal for that object.
\<close>

definition extract_row :: "'id catalogue \<Rightarrow> 'id \<Rightarrow> py_error + row" where
  "extract_row data ID = (case rows data ID of None \<Rightarrow> Inl KeyError | Some r \<Rightarrow> Inr r)"

text \<open>\<^verbatim>\<open>row[name]\<close>.\<close>

definition field_of :: "row \<Rightarrow> string \<Rightarrow> py_error + real" where
  "field_of r name = (case r name of None \<Rightarrow> Inl KeyError | Some v \<Rightarrow> Inr v)"

definition Jy :: real where
  "Jy = 1 / 10 ^ 23"

definition nanoJy :: real where
  "nanoJy = 1 / 10 ^ 23 * (1 / 10 ^ 9)"

text \<open>
  Lines 90 to 101: one band of \<^verbatim>\<open>extract_fluxes\<close>. The error is a \<open>real option\<close>: for a
  flux of 0 under a positive error, \<^verbatim>\<open>flux_err[j]/flux[j]\<close> is not finite and neither is the
  product that line 99 stores.
\<close>

definition extract_band :: "filters \<Rightarrow> row \<Rightarrow> real \<Rightarrow> nat \<Rightarrow> py_error + (real \<times> real option)" where
  "extract_band filters r aper_corr j =
     (if length (flux_colName filters) \<le> j then Inl IndexError
      else and_then (field_of r (flux_colName filters ! j)) (\<lambda>f.
        let flux = f * aper_corr * units filters / Jy
        in if length (flux_errcolName filters) \<le> j then Inl IndexError
           else and_then (field_of r (flux_errcolName filters ! j)) (\<lambda>fe.
             let flux_err = fe * aper_corr * units filters / Jy
             in if flux_err > 0 then
                  (if length (min_rel_err filters) \<le> j then Inl IndexError
                   else Inr (flux,
                          map_option (\<lambda>q. sqrt (q\<^sup>2 + (min_rel_err filters ! j)\<^sup>2) * flux)
                            (np_divide flux_err flux)))
                else Inr (flux, Some flux_err))))"

text \<open>Lines 83 to 103. The callers pass no \<^verbatim>\<open>aper_corr\<close>, so it is the default \<open>1.\<close>.\<close>

definition extract_fluxes ::
  "'id catalogue \<Rightarrow> filters \<Rightarrow> 'id \<Rightarrow> real \<Rightarrow> py_error + (real list \<times> real option list)" where
  "extract_fluxes cat filters ID aper_corr =
     and_then (extract_row cat ID) (\<lambda>r.
       for_loop [0..<filters_n_bands filters]
         (\<lambda>j (flux, flux_err).
            and_then (extract_band filters r aper_corr j) (\<lambda>(f, fe).
              Inr (flux[j := f], flux_err[j := fe])))
         (replicate (filters_n_bands filters) 0, replicate (filters_n_bands filters) (Some 0)))"

text \<open>
  Lines 159 to 172 of \<^verbatim>\<open>plot_marginal\<close> and, word for word, lines 409 to 422 of
  \<^verbatim>\<open>plot_replicated_data\<close>: the local \<open>aper_corr\<close> is computed and the fluxes are
  extracted with the default correction.
\<close>

definition observed_photometry ::
  "'id catalogue \<Rightarrow> filters \<Rightarrow> 'id \<Rightarrow> py_error + (real list \<times> real option list)" where
  "observed_photometry cat filters ID =
     and_then (extract_row cat ID) (\<lambda>observation.
     and_then (if ''aper_corr'' \<in> set (dtype_names cat)
               then and_then (field_of observation ''aper_corr'') (\<lambda>a. Inr (10 powr (- (4 / 10) * a)))
               else Inr 1) (\<lambda>aper_corr.
     and_then (extract_fluxes cat filters ID 1) (\<lambda>(obs_flux, obs_flux_err).
       Inr (map (\<lambda>x. x * 10 ^ 9) obs_flux, map (map_option (\<lambda>x. x * 10 ^ 9)) obs_flux_err))))"

section \<open>The marginal photometry plot: \<^verbatim>\<open>Photometry.plot_marginal\<close>\<close>

text \<open>\<^verbatim>\<open>np.min\<close> and \<^verbatim>\<open>np.max\<close> raise on an empty array.\<close>

definition np_min :: "real list \<Rightarrow> py_error + real" where
  "np_min xs = (case xs of [] \<Rightarrow> Inl ValueError | x # r \<Rightarrow> Inr (fold min r x))"

definition np_max :: "real list \<Rightarrow> py_error + real" where
  "np_max xs = (case xs of [] \<Rightarrow> Inl ValueError | x # r \<Rightarrow> Inr (fold max r x))"

text \<open>
  \<^verbatim>\<open>prepare_violin_plot\<close> of \<^verbatim>\<open>bangs_utils\<close> is not among the sources; the plotter is
  modelled for any such function. It takes the sample and the weights and returns, or raises,
  \<^verbatim>\<open>kde_pdf, pdf_norm, median_flux, x_plot, y_plot\<close>.
\<close>

type_synonym violin = "(real \<Rightarrow> real) \<times> real \<times> real \<times> real list \<times> real list"

text \<open>
  The per-band arrays of lines 188 to 198. \<open>x_plot\<close>, \<open>y_plot\<close> and \<open>kde_pdf\<close> start as
  \<^verbatim>\<open>list(range(n_bands))\<close>: \<open>None\<close> is an entry that still holds its integer. \<open>has_pdf\<close>
  starts the same way, and an integer counts as true unless it is 0.
\<close>

record marginal_state =
  median_flux :: "real list"
  pdf_norm :: "real list"
  max_y :: "real list"
  min_flux :: "real list"
  max_flux :: "real list"
  y_plot :: "real list option list"
  x_plot :: "real list option list"
  has_pdf :: "bool list"
  kde_pdf :: "(real \<Rightarrow> real) option list"

definition marginal_init :: "nat \<Rightarrow> marginal_state" where
  "marginal_init n =
     \<lparr>median_flux = replicate n 0, pdf_norm = replicate n 0, max_y = replicate n 0,
      min_flux = replicate n 0, max_flux = replicate n 0,
      y_plot = replicate n None, x_plot = replicate n None,
      has_pdf = map (\<lambda>i. i \<noteq> 0) [0..<n], kde_pdf = replicate n None\<rparr>"

text \<open>Lines 205 to 229: the body of the first loop over the bands.\<close>

definition marginal_band ::
  "(real list \<Rightarrow> real list \<Rightarrow> py_error + violin) \<Rightarrow> real list \<Rightarrow> real list list \<Rightarrow>
   nat \<Rightarrow> marginal_state \<Rightarrow> py_error + marginal_state" where
  "marginal_band prepare_violin_plot probability model_sed i st =
     (let xdata = map (\<lambda>x. x / nanoJy) (model_sed ! i)
      in and_then (np_min xdata) (\<lambda>min_x.
         and_then (np_max xdata) (\<lambda>max_x.
           let st1 = st\<lparr>min_flux := (min_flux st)[i := min_x],
                        max_flux := (max_flux st)[i := max_x]\<rparr>
           in if min_x = max_x then
                Inr (st1\<lparr>has_pdf := (has_pdf st1)[i := False],
                         median_flux := (median_flux st1)[i := min_x]\<rparr>)
              else
                and_then (prepare_violin_plot xdata probability) (\<lambda>(k, norm, med, xp, yp).
                and_then (np_max yp) (\<lambda>my.
                  Inr (st1\<lparr>has_pdf := (has_pdf st1)[i := True],
                           kde_pdf := (kde_pdf st1)[i := Some k],
                           pdf_norm := (pdf_norm st1)[i := norm],
                           median_flux := (median_flux st1)[i := med],
                           x_plot := (x_plot st1)[i := Some xp],
                           y_plot := (y_plot st1)[i := Some yp],
                           max_y := (max_y st1)[i := my]\<rparr>))))))"

text \<open>What the second loop hands to matplotlib; a coordinate \<open>None\<close> is not finite.\<close>

datatype artist =
    Fill_betweenx "real list" "real option list" "real option list"
  | Plot_line "real option \<times> real option" "real \<times> real"
  | Plot_marker real real

text \<open>
  Lines 231 and 232: \<open>delta_wl\<close>, the differences of neighbouring effective wavelengths with
  the first one repeated in front; \<^verbatim>\<open>delta_wl[0]\<close> raises when there is no difference.
\<close>

definition wl_diff :: "real list \<Rightarrow> real list" where
  "wl_diff wl = vsub (tl wl) (butlast wl)"

definition delta_wl_of :: "real list \<Rightarrow> py_error + real list" where
  "delta_wl_of wl = (case wl_diff wl of [] \<Rightarrow> Inl IndexError | d # ds \<Rightarrow> Inr (d # d # ds))"

text \<open>\<^verbatim>\<open>a[lo:hi]\<close>.\<close>

definition slice :: "nat \<Rightarrow> nat \<Rightarrow> 'a list \<Rightarrow> 'a list" where
  "slice lo hi a = take (hi - lo) (drop lo a)"

text \<open>Lines 236 to 238: the spacing \<open>dwl\<close> of band \<open>i\<close>.\<close>

definition dwl_of :: "real list \<Rightarrow> nat \<Rightarrow> py_error + real" where
  "dwl_of delta_wl i =
     (if length delta_wl \<le> i then Inl IndexError
      else if i > 1 then np_min (slice (i - 1) i delta_wl)
      else Inr (delta_wl ! i))"

text \<open>
  Lines 240 to 265: what is drawn for band \<open>i\<close>. An entry of \<open>x_plot\<close> that still holds its
  integer has no \<^verbatim>\<open>len\<close>. The two divisions have no guard.
\<close>

definition render_band ::
  "real list \<Rightarrow> real list \<Rightarrow> marginal_state \<Rightarrow> nat \<Rightarrow> py_error + artist list" where
  "render_band wl delta_wl st i =
     and_then (dwl_of delta_wl i) (\<lambda>dwl.
     and_then
       (if has_pdf st ! i then
          (let w = np_divide (4 / 10 * dwl) (max_y st ! i)
           in case (x_plot st ! i, y_plot st ! i, kde_pdf st ! i) of
                (Some xp, Some yp, Some k) \<Rightarrow>
                  if length wl \<le> i then Inl IndexError
                  else
                    (let y_grid = repeat (wl ! i) (length xp);
                         lim_y = Option.bind (np_divide (k (median_flux st ! i)) (pdf_norm st ! i))
                                   (\<lambda>q. map_option (\<lambda>w'. q * w') w)
                     in if length yp \<noteq> length xp then Inl ValueError
                        else Inr [Fill_betweenx xp
                                    (map2 (\<lambda>g y. map_option (\<lambda>w'. g - y * w') w) y_grid yp)
                                    (map2 (\<lambda>g y. map_option (\<lambda>w'. g + y * w') w) y_grid yp),
                                  Plot_line (map_option (\<lambda>l. wl ! i - l) lim_y,
                                             map_option (\<lambda>l. wl ! i + l) lim_y)
                                            (median_flux st ! i, median_flux st ! i)])
              | _ \<Rightarrow> Inl TypeError)
        else Inr [])
       (\<lambda>drawn. if length wl \<le> i then Inl IndexError
                else Inr (drawn @ [Plot_marker (wl ! i) (median_flux st ! i)])))"

text \<open>A loop that collects what each round produces and stops at the first exception.\<close>

fun map_result :: "('a \<Rightarrow> py_error + 'b) \<Rightarrow> 'a list \<Rightarrow> py_error + 'b list" where
  "map_result f [] = Inr []"
| "map_result f (x # xs) =
     and_then (f x) (\<lambda>y. and_then (map_result f xs) (\<lambda>ys. Inr (y # ys)))"

text \<open>
  Lines 187 to 265: \<open>n_bands\<close> is the number of columns of the marginal photometry; line 201
  takes the minimum of the wavelength differences; then the two loops run. The result is the
  state of the arrays and, band by band, what was drawn.
\<close>

definition marginal_bands ::
  "(real list \<Rightarrow> real list \<Rightarrow> py_error + violin) \<Rightarrow> real list \<Rightarrow> real list list \<Rightarrow>
   real list \<Rightarrow> py_error + (marginal_state \<times> artist list list)" where
  "marginal_bands prepare_violin_plot probability model_sed wl =
     (let n = length model_sed
      in and_then (np_min (wl_diff wl)) (\<lambda>m.
         let width = 5 * m
         in and_then (for_loop [0..<n] (marginal_band prepare_violin_plot probability model_sed)
                        (marginal_init n)) (\<lambda>st.
            and_then (delta_wl_of wl) (\<lambda>delta_wl.
            and_then (map_result (render_band wl delta_wl st) [0..<n]) (\<lambda>drawn.
              Inr (st, drawn))))))"

text \<open>
  Lines 174 and 268 to 277: the limits \<open>[yMin, yMax]\<close> given to \<^verbatim>\<open>set_ylim\<close>, from the
  observed arrays (finite numbers here) and the per-band minimum and maximum of the predicted
  fluxes.
\<close>

definition y_limits ::
  "real list \<Rightarrow> real list \<Rightarrow> real list \<Rightarrow> real list \<Rightarrow> py_error + (real \<times> real)" where
  "y_limits obs_flux' obs_flux_err' min_flux' max_flux' =
     (let ok = np_where (map (\<lambda>x. x > 0) obs_flux_err')
      in and_then (np_max max_flux') (\<lambda>yMax.
         and_then (take_rows obs_flux' ok) (\<lambda>flux_ok.
         and_then (take_rows obs_flux_err' ok) (\<lambda>err_ok.
         and_then (np_min (vsub flux_ok err_ok @ min_flux')) (\<lambda>yMin.
           let dY = yMax - yMin
           in Inr (yMin - dY * (1 / 10), yMax + dY * (1 / 10)))))))"

text \<open>
  Lines 187 to 277 in sequence: the limits are set once both loops have run, from the
  \<open>min_flux\<close> and \<open>max_flux\<close> that the first loop has filled.
\<close>

definition marginal_y_limits ::
  "(real list \<Rightarrow> real list \<Rightarrow> py_error + violin) \<Rightarrow> real list \<Rightarrow> real list list \<Rightarrow>
   real list \<Rightarrow> real list \<Rightarrow> real list \<Rightarrow> py_error + (real \<times> real)" where
  "marginal_y_limits prepare_violin_plot probability model_sed wl obs_flux' obs_flux_err' =
     and_then (marginal_bands prepare_violin_plot probability model_sed wl) (\<lambda>(st, drawn).
       y_limits obs_flux' obs_flux_err' (min_flux st) (max_flux st))"

text \<open>
  An example of a function that can stand for \<^verbatim>\<open>prepare_violin_plot\<close>, used in the examples
  only: the uniform density over the range of the sample, with its midpoint for the median and
  a grid of two points.
\<close>

definition uniform_pdf :: "real \<Rightarrow> real \<Rightarrow> real \<Rightarrow> real" where
  "uniform_pdf lo hi x = (if lo \<le> x \<and> x \<le> hi then 1 / (hi - lo) else 0)"

definition uniform_violin :: "real list \<Rightarrow> real list \<Rightarrow> py_error + violin" where
  "uniform_violin xdata weights =
     and_then (np_min xdata) (\<lambda>lo.
     and_then (np_max xdata) (\<lambda>hi.
       Inr (uniform_pdf lo hi, uniform_pdf lo hi ((lo + hi) / 2), (lo + hi) / 2,
            [lo, hi], [uniform_pdf lo hi lo, uniform_pdf lo hi hi])))"

text \<open>The lengths of the per-band arrays, which no round of the first loop changes.\<close>

definition arrays_of_length :: "nat \<Rightarrow> marginal_state \<Rightarrow> bool" where
  "arrays_of_length n st \<longleftrightarrow>
     length (median_flux st) = n \<and> length (pdf_norm st) = n \<and> length (max_y st) = n \<and>
     length (min_flux st) = n \<and> length (max_flux st) = n \<and> length (y_plot st) = n \<and>
     length (x_plot st) = n \<and> length (has_pdf st) = n \<and> length (kde_pdf st) = n"

section \<open>Existing plots: the guard of both plotters and \<^verbatim>\<open>prepare_plot_saving\<close>\<close>

text \<open>The part of the file system that the plotters touch: directories, and files with a content.\<close>

record 'fig world =
  dirs :: "string set"
  files :: "string \<rightharpoonup> 'fig"

text \<open>\<^verbatim>\<open>os.path.join\<close>, \<^verbatim>\<open>os.path.basename\<close> and \<^verbatim>\<open>os.path.splitext\<close> on POSIX paths.\<close>

definition os_path_join :: "string \<Rightarrow> string \<Rightarrow> string" where
  "os_path_join a b =
     (if b \<noteq> [] \<and> hd b = CHR ''/'' then b
      else if a = [] \<or> last a = CHR ''/'' then a @ b
      else a @ ''/'' @ b)"

definition basename :: "string \<Rightarrow> string" where
  "basename p = rev (takeWhile (\<lambda>c. c \<noteq> CHR ''/'') (rev p))"

definition splitext :: "string \<Rightarrow> string \<times> string" where
  "splitext p =
     (let base = basename p;
          ext = CHR ''.'' # rev (takeWhile (\<lambda>c. c \<noteq> CHR ''.'') (rev base));
          stem = take (length base - length ext) base
      in if CHR ''.'' \<notin> set base \<or> (\<forall>c \<in> set stem. c = CHR ''.'') then (p, [])
         else (take (length p - length ext) p, ext))"

definition pybangs_plot :: string where
  "pybangs_plot = os_path_join ''pybangs'' ''plot''"

definition isfile :: "'fig world \<Rightarrow> string \<Rightarrow> bool" where
  "isfile w name \<longleftrightarrow> files w name \<noteq> None"

definition path_exists :: "'fig world \<Rightarrow> string \<Rightarrow> bool" where
  "path_exists w name \<longleftrightarrow> name \<in> dirs w \<or> files w name \<noteq> None"

definition os_rename :: "'fig world \<Rightarrow> string \<Rightarrow> string \<Rightarrow> 'fig world" where
  "os_rename w src dst = w\<lparr>files := ((files w)(src := None))(dst := files w src)\<rparr>"

text \<open>
  \<^verbatim>\<open>prepare_plot_saving\<close> of \<^verbatim>\<open>bangs_utils.py\<close>, lines 77 to 91, with the process-wide
  \<^verbatim>\<open>BangsDirectories.results_dir\<close> for \<open>results_dir\<close> and the formatted time \<open>stamp\<close>. It
  returns the name to save under and changes the file system.
\<close>

definition prepare_plot_saving ::
  "'fig world \<Rightarrow> string \<Rightarrow> string \<Rightarrow> string \<Rightarrow> bool \<Rightarrow> string \<times> 'fig world" where
  "prepare_plot_saving w results_dir stamp file_name overwrite =
     (let directory = os_path_join results_dir pybangs_plot;
          w1 = (if \<not> path_exists w directory then w\<lparr>dirs := insert directory (dirs w)\<rparr> else w);
          name = os_path_join directory (basename file_name)
      in if isfile w1 name \<and> \<not> overwrite then
           (let new_name = fst (splitext name) @ stamp @ snd (splitext name)
            in (name, os_rename w1 name new_name))
         else (name, w1))"

text \<open>
  Modelled from the spec: \<^verbatim>\<open>plot_exists\<close> of \<^verbatim>\<open>bangs_utils\<close> is not among the sources.
  The spec says that the artifact is named \<^verbatim>\<open><ID>_<suffix>.pdf\<close> under the plot subdirectory of
  the results and that the existing-artifact check is a presence test keyed by this name.
\<close>

definition plot_exists :: "'fig world \<Rightarrow> string \<Rightarrow> string \<Rightarrow> bool" where
  "plot_exists w results_dir plot_name \<longleftrightarrow>
     isfile w (os_path_join (os_path_join results_dir pybangs_plot) plot_name)"

text \<open>\<^verbatim>\<open>fig.savefig(name, ...)\<close>.\<close>

definition savefig :: "'fig world \<Rightarrow> string \<Rightarrow> 'fig \<Rightarrow> 'fig world" where
  "savefig w name fig = w\<lparr>files := (files w)(name \<mapsto> fig)\<rparr>"

text \<open>
  \<^verbatim>\<open>plot_marginal\<close>, lines 151 to 157 and 352 to 359, and \<^verbatim>\<open>plot_replicated_data\<close>,
  lines 393 to 399 and 736 to 740. \<open>ID\<close> is \<^verbatim>\<open>str(ID)\<close>; \<open>figure\<close> is all that the lines
  between the guard and the saving read, compute and draw: the figure, or the exception they
  raise.
\<close>

definition plot_marginal ::
  "'fig world \<Rightarrow> string \<Rightarrow> string \<Rightarrow> py_error + 'fig \<Rightarrow> string \<Rightarrow> bool \<Rightarrow> bool \<Rightarrow>
   py_error + 'fig world" where
  "plot_marginal w results_dir stamp figure ID replot show =
     (let plot_name = ID @ ''_BANGS_marginal_SED_phot.pdf''
      in if plot_exists w results_dir plot_name \<and> \<not> replot \<and> \<not> show then Inr w
         else and_then figure (\<lambda>fig.
                if show then Inr w
                else (case prepare_plot_saving w results_dir stamp plot_name False of
                        (name, w') \<Rightarrow> Inr (savefig w' name fig))))"

definition plot_replicated_data ::
  "'fig world \<Rightarrow> string \<Rightarrow> string \<Rightarrow> py_error + 'fig \<Rightarrow> string \<Rightarrow> bool \<Rightarrow>
   py_error + 'fig world" where
  "plot_replicated_data w results_dir stamp figure ID replot =
     (let plot_name = ID @ ''_BANGS_replic_data_phot.pdf''
      in if plot_exists w results_dir plot_name \<and> \<not> replot then Inr w
         else and_then figure (\<lambda>fig.
                case prepare_plot_saving w results_dir stamp plot_name False of
                  (name, w') \<Rightarrow> Inr (savefig w' name fig)))"

section \<open>Verification\<close>

subsection \<open>Loops and arrays\<close>

lemma for_loop_append:
  "for_loop (xs @ ys) body s = and_then (for_loop xs body s) (for_loop ys body)"
  by (induction xs arbitrary: s) (auto simp: and_then_def split: sum.splits)

lemma for_loop_snoc:
  "for_loop [0..<Suc k] body s = and_then (for_loop [0..<k] body s) (body k)"
  by (simp add: for_loop_append and_then_def split: sum.splits)

lemma map_upt_update:
  "k < n \<Longrightarrow> (map f [0..<n])[k := v] = map (f(k := v)) [0..<n]"
  by (rule nth_equalityI) (auto simp: nth_list_update)

lemma p_value_loop_prefix:
  assumes "n_bands e \<le> length (obs_flux_err e)" "0 < n_replicated e" "k \<le> n_bands e"
  shows "for_loop [0..<k] (p_value_band_step e)
           (replicate (n_bands e) 0, replicate (n_bands e) (replicate (n_replicated e) 0))
         = Inr (map (\<lambda>i. if i < k \<and> obs_flux_err e ! i > 0 then band_fraction e i else 0) [0..<n_bands e],
                map (\<lambda>i. if i < k \<and> obs_flux_err e ! i > 0 then replic_scaled (replic_field e ! i)
                          else replicate (n_replicated e) 0) [0..<n_bands e])"
  using assms(3)
proof (induction k)
  case 0
  show ?case by (simp add: map_replicate_const)
next
  case (Suc k)
  then have k: "k < n_bands e" and IH: "for_loop [0..<k] (p_value_band_step e)
           (replicate (n_bands e) 0, replicate (n_bands e) (replicate (n_replicated e) 0))
         = Inr (map (\<lambda>i. if i < k \<and> obs_flux_err e ! i > 0 then band_fraction e i else 0) [0..<n_bands e],
                map (\<lambda>i. if i < k \<and> obs_flux_err e ! i > 0 then replic_scaled (replic_field e ! i)
                          else replicate (n_replicated e) 0) [0..<n_bands e])" by simp_all
  have lt: "\<And>i. i < Suc k \<longleftrightarrow> i < k \<or> i = k" by auto
  show ?case
    unfolding for_loop_snoc IH and_then_def
    using k assms(1,2)
    by (auto simp: p_value_band_step_def Let_def map_upt_update band_fraction_def less_Suc_eq
             intro!: nth_equalityI)
qed

lemma p_value_loop_closed:
  assumes "n_bands e \<le> length (obs_flux_err e)" "0 < n_replicated e"
  shows "p_value_loop e
         = Inr (map (\<lambda>i. if obs_flux_err e ! i > 0 then band_fraction e i else 0) [0..<n_bands e],
                map (\<lambda>i. if obs_flux_err e ! i > 0 then replic_scaled (replic_field e ! i)
                          else replicate (n_replicated e) 0) [0..<n_bands e])"
  unfolding p_value_loop_def using p_value_loop_prefix[OF assms, of "n_bands e"] by simp

lemma obs_discr_band_nth:
  assumes "shapes_ok e" "i < n_bands e" "d < n_replicated e"
  shows "length (obs_discr_band e i) = n_replicated e"
    and "obs_discr_band e i ! d = (obs_flux e ! i - noiseless_flux e ! i ! d)\<^sup>2 / (obs_flux_err e ! i)\<^sup>2"
  using assms
  by (auto simp: obs_discr_band_def vdiv_def vsq_def vsub_def repeat_def shapes_ok_def)

lemma repl_discr_band_nth:
  assumes "shapes_ok e" "i < n_bands e" "d < n_replicated e"
  shows "length (repl_discr_band e i) = n_replicated e"
    and "repl_discr_band e i ! d = (replic_field e ! i ! d / (1 / 10 ^ 9) - noiseless_flux e ! i ! d)\<^sup>2 / (obs_flux_err e ! i)\<^sup>2"
  using assms
  by (auto simp: repl_discr_band_def vdiv_def vsq_def vsub_def repeat_def shapes_ok_def replic_scaled_def n_bands_def)

lemma count_nonzero_vgt:
  assumes "length xs = n" "length ys = n"
  shows "count_nonzero (vgt xs ys) = card {d. d < n \<and> xs ! d > ys ! d}"
  using assms by (auto simp: count_nonzero_def vgt_def length_filter_conv_card intro!: arg_cong[where f=card])

subsection \<open>The per-band p-value\<close>

text \<open>
  C1. For every band \<open>b\<close> with an observed error above zero, the loop of lines 455 to 465
  returns, and the p-value it stores for \<open>b\<close> is the number of draws \<open>d\<close> whose replicated
  discrepancy \<open>(replicated_flux - noiseless_flux)\<^sup>2 / obs_err\<^sup>2\<close> is strictly above the
  observed discrepancy \<open>(obs_flux - noiseless_flux)\<^sup>2 / obs_err\<^sup>2\<close>, divided by the number
  of draws; when the two discrepancies are equal at every draw, the p-value is 0.
\<close>

theorem per_band_p_value_fraction:
  assumes "shapes_ok e" and "n_bands e \<le> length (obs_flux_err e)" and "0 < n_replicated e"
    and "b < n_bands e" and "obs_flux_err e ! b > 0"
  shows "\<exists>pv rf. p_value_loop e = Inr (pv, rf) \<and>
           pv ! b = real (card {d. d < n_replicated e \<and>
                      (replic_field e ! b ! d / (1 / 10 ^ 9) - noiseless_flux e ! b ! d)\<^sup>2 / (obs_flux_err e ! b)\<^sup>2
                      > (obs_flux e ! b - noiseless_flux e ! b ! d)\<^sup>2 / (obs_flux_err e ! b)\<^sup>2})
                    / real (n_replicated e) \<and>
           ((\<forall>d < n_replicated e.
                (replic_field e ! b ! d / (1 / 10 ^ 9) - noiseless_flux e ! b ! d)\<^sup>2 / (obs_flux_err e ! b)\<^sup>2
                = (obs_flux e ! b - noiseless_flux e ! b ! d)\<^sup>2 / (obs_flux_err e ! b)\<^sup>2)
            \<longrightarrow> pv ! b = 0)"
proof -
  let ?R = "\<lambda>d. (replic_field e ! b ! d / (1 / 10 ^ 9) - noiseless_flux e ! b ! d)\<^sup>2 / (obs_flux_err e ! b)\<^sup>2"
  let ?O = "\<lambda>d. (obs_flux e ! b - noiseless_flux e ! b ! d)\<^sup>2 / (obs_flux_err e ! b)\<^sup>2"
  have len: "length (repl_discr_band e b) = n_replicated e" "length (obs_discr_band e b) = n_replicated e"
    using assms(1,3,4) repl_discr_band_nth(1)[of e b 0] obs_discr_band_nth(1)[of e b 0] by simp_all
  have "{d. d < n_replicated e \<and> repl_discr_band e b ! d > obs_discr_band e b ! d}
        = {d. d < n_replicated e \<and> ?R d > ?O d}"
    using assms(1,4) by (auto simp: repl_discr_band_nth(2) obs_discr_band_nth(2))
  then have frac: "band_fraction e b = real (card {d. d < n_replicated e \<and> ?R d > ?O d}) / real (n_replicated e)"
    unfolding band_fraction_def using count_nonzero_vgt[OF len] by simp
  have tie: "card {d. d < n_replicated e \<and> ?R d > ?O d} = 0" if "\<forall>d < n_replicated e. ?R d = ?O d"
  proof -
    have "{d. d < n_replicated e \<and> ?R d > ?O d} = {}" using that by auto
    then show ?thesis by (metis card.empty)
  qed
  show ?thesis
    unfolding p_value_loop_closed[OF assms(2,3)]
    using assms(4,5) frac tie by (intro exI conjI) (rule refl, auto)
qed

theorem per_band_p_value_fraction_witness:
  "let e = \<lparr>obs_flux = [10, 11], obs_flux_err = [1, 1], noiseless_flux = [[10, 10], [10, 10]],
            replic_field = [[10 / 10 ^ 9, 10 / 10 ^ 9], [10 / 10 ^ 9, 13 / 10 ^ 9]], n_replicated = 2\<rparr>
   in shapes_ok e \<and> n_bands e \<le> length (obs_flux_err e) \<and> 0 < n_replicated e \<and>
      1 < n_bands e \<and> obs_flux_err e ! 0 > 0 \<and> obs_flux_err e ! 1 > 0 \<and>
      (\<exists>pv rf. p_value_loop e = Inr (pv, rf) \<and> pv ! 0 = 0 \<and> pv ! 1 = 1 / 2)"
proof -
  define e where "e = \<lparr>obs_flux = [10, 11], obs_flux_err = [1, 1], noiseless_flux = [[10, 10], [10, 10]],
            replic_field = [[10 / 10 ^ 9, 10 / 10 ^ 9], [10 / 10 ^ 9, 13 / 10 ^ 9]], n_replicated = 2\<rparr>"
  have h: "shapes_ok e" "n_bands e \<le> length (obs_flux_err e)" "0 < n_replicated e"
    by (simp_all add: e_def shapes_ok_def n_bands_def)
  have b0: "0 < n_bands e" "obs_flux_err e ! 0 > 0" and b1: "1 < n_bands e" "obs_flux_err e ! 1 > 0"
    by (simp_all add: e_def n_bands_def)
  have tie: "\<forall>d < n_replicated e.
                (replic_field e ! 0 ! d / (1 / 10 ^ 9) - noiseless_flux e ! 0 ! d)\<^sup>2 / (obs_flux_err e ! 0)\<^sup>2
                = (obs_flux e ! 0 - noiseless_flux e ! 0 ! d)\<^sup>2 / (obs_flux_err e ! 0)\<^sup>2"
    by (simp add: e_def less_Suc_eq numeral_2_eq_2)
  have one: "{d. d < n_replicated e \<and>
                (replic_field e ! 1 ! d / (1 / 10 ^ 9) - noiseless_flux e ! 1 ! d)\<^sup>2 / (obs_flux_err e ! 1)\<^sup>2
                > (obs_flux e ! 1 - noiseless_flux e ! 1 ! d)\<^sup>2 / (obs_flux_err e ! 1)\<^sup>2} = {1}"
    by (auto simp: e_def less_Suc_eq numeral_2_eq_2)
  from per_band_p_value_fraction[OF h b0] per_band_p_value_fraction[OF h b1] tie one
  have "\<exists>pv rf. p_value_loop e = Inr (pv, rf) \<and> pv ! 0 = 0 \<and> pv ! 1 = 1 / 2"
    by (auto simp: e_def)
  with h b0 b1 show ?thesis unfolding Let_def e_def[symmetric] by simp
qed

subsection \<open>Markers and masked bands\<close>

lemma set_np_where: "set (np_where bs) = {i. i < length bs \<and> bs ! i}"
  by (auto simp: np_where_def)

lemma replicate_update_same: "(replicate n v)[i := v] = replicate n v"
proof (cases "i < n")
  case True
  then show ?thesis by (simp add: list_update_same_conv)
next
  case False
  then show ?thesis by (simp add: list_update_beyond)
qed

lemma fold_update_replicate: "fold (\<lambda>i m. m[i := v]) loc (replicate n v) = replicate n v"
  by (induction loc) (simp_all add: replicate_update_same)

lemma markers_of_circles:
  assumes "length pv = nb"
  shows "markers_of nb pv = Inr (replicate nb ''o'')"
  using assms
  by (auto simp: markers_of_def assign_at_def repeat_def loc_of_def set_np_where
                 fold_update_replicate Let_def)

text \<open>
  C8. In the marker-styling step of lines 467 to 469, whatever the per-band p-values are, the
  marker of every band is the circle \<open>''o''\<close>: the bands at or below \<open>p_value_lim\<close> are
  assigned the marker that every band already has.
\<close>

theorem markers_always_circle:
  assumes "length pv = nb"
  shows "markers_of nb pv = Inr (replicate nb ''o'')"
  using assms by (rule markers_of_circles)

theorem markers_always_circle_witness:
  "length [0, 1 / 100, 5 / 100, 1 / 2, 1 :: real] = 5 \<and>
   markers_of 5 [0, 1 / 100, 5 / 100, 1 / 2, 1] = Inr [''o'', ''o'', ''o'', ''o'', ''o'']"
  using markers_always_circle[of "[0, 1 / 100, 5 / 100, 1 / 2, 1]" 5]
  by (simp add: numeral_eq_Suc)

text \<open>
  C10. For a band whose observed error is 0 the loop of lines 455 to 465 leaves the p-value at
  its initial value 0; that band is at or below \<open>p_value_lim\<close> and is among the indices
  \<open>loc\<close> that line 468 selects.
\<close>

theorem masked_band_p_value_zero:
  assumes "n_bands e \<le> length (obs_flux_err e)" and "0 < n_replicated e"
    and "b < n_bands e" and "obs_flux_err e ! b = 0"
  shows "\<exists>pv rf. p_value_loop e = Inr (pv, rf) \<and> pv ! b = 0 \<and> pv ! b \<le> p_value_lim \<and>
                 b \<in> set (loc_of pv)"
  unfolding p_value_loop_closed[OF assms(1,2)]
  using assms(3,4)
  by (intro exI conjI) (rule refl, auto simp: loc_of_def set_np_where p_value_lim_def)

theorem masked_band_p_value_zero_witness:
  "let e = \<lparr>obs_flux = [11, 5], obs_flux_err = [1, 0], noiseless_flux = [[10, 10], [4, 4]],
            replic_field = [[10 / 10 ^ 9, 13 / 10 ^ 9], [7 / 10 ^ 9, 8 / 10 ^ 9]], n_replicated = 2\<rparr>
   in n_bands e \<le> length (obs_flux_err e) \<and> 0 < n_replicated e \<and> 1 < n_bands e \<and>
      obs_flux_err e ! 1 = 0 \<and>
      (\<exists>pv rf. p_value_loop e = Inr (pv, rf) \<and> pv ! 1 = 0 \<and> pv ! 1 \<le> p_value_lim \<and> 1 \<in> set (loc_of pv))"
proof -
  define e where "e = \<lparr>obs_flux = [11, 5], obs_flux_err = [1, 0], noiseless_flux = [[10, 10], [4, 4]],
            replic_field = [[10 / 10 ^ 9, 13 / 10 ^ 9], [7 / 10 ^ 9, 8 / 10 ^ 9]], n_replicated = 2\<rparr>"
  have h: "n_bands e \<le> length (obs_flux_err e)" "0 < n_replicated e" "1 < n_bands e"
    "obs_flux_err e ! 1 = 0"
    by (simp_all add: e_def n_bands_def)
  from masked_band_p_value_zero[OF h] h
  show ?thesis unfolding Let_def e_def[symmetric] by simp
qed

subsection \<open>The joint discrepancy\<close>

lemma map2_map_same: "map2 F (map f xs) (map g xs) = map (\<lambda>x. F (f x) (g x)) xs"
  by (induction xs) simp_all

lemma and_then_Inr [simp]: "and_then (Inr x) f = f x"
  by (simp add: and_then_def)

lemma and_then_Inl [simp]: "and_then (Inl err) f = Inl err"
  by (simp add: and_then_def)

lemma ok_bands_lt: "i \<in> set (ok_bands e) \<Longrightarrow> i < length (obs_flux_err e) \<and> obs_flux_err e ! i > 0"
  by (auto simp: ok_bands_def set_np_where)

lemma set_ok_bands: "set (ok_bands e) = {i. i < length (obs_flux_err e) \<and> obs_flux_err e ! i > 0}"
  by (auto simp: ok_bands_def set_np_where)

lemma distinct_ok_bands: "distinct (ok_bands e)"
  by (simp add: ok_bands_def np_where_def)

lemma take_rows_map:
  assumes "\<forall>i \<in> set idx. i < length m"
  shows "take_rows m idx = Inr (map (\<lambda>i. m ! i) idx)"
  using assms by (auto simp: take_rows_def)

lemma length_discr_band:
  assumes "shapes_ok e" "i < n_bands e"
  shows "length (obs_discr_band e i) = n_replicated e"
    and "length (repl_discr_band e i) = n_replicated e"
  using assms
  by (auto simp: obs_discr_band_def repl_discr_band_def vdiv_def vsq_def vsub_def repeat_def
        shapes_ok_def replic_scaled_def n_bands_def)

lemma foldr_np_add_Finite: "foldr np_add (map Finite xs) (Finite 0) = Finite (sum_list xs)"
  by (induction xs) simp_all

lemma row_divide_Finite:
  assumes "\<forall>y \<in> set ys. y \<noteq> 0"
  shows "map2 np_true_divide xs ys = map Finite (vdiv xs ys)"
  using assms by (auto simp: np_true_divide_def vdiv_def dest: set_zip_rightD)

lemma sum_axis0_Finite:
  assumes "\<forall>r \<in> set m. length r = n"
  shows "sum_axis0 n (map (map Finite) m) = map Finite (column_sums n m)"
proof -
  have "foldr np_add (map (\<lambda>r. r ! d) (map (map Finite) m)) (Finite 0)
        = Finite (sum_list (map (\<lambda>r. r ! d) m))" if "d < n" for d
  proof -
    have "map (\<lambda>r. r ! d) (map (map Finite) m) = map Finite (map (\<lambda>r. r ! d) m)"
      using assms that by simp
    then show ?thesis by (simp only: foldr_np_add_Finite)
  qed
  then show ?thesis by (simp add: sum_axis0_def column_sums_def)
qed

lemma np_greater_Finite: "map2 np_greater (map Finite xs) (map Finite ys) = vgt xs ys"
  by (simp add: vgt_def zip_map_map case_prod_unfold)

lemma joint_discr_closed:
  assumes "shapes_ok e" "length (obs_flux e) = n_bands e"
    "length rf = n_bands e" "\<forall>i \<in> set (ok_bands e). rf ! i = replic_scaled (replic_field e ! i)"
  shows "joint_discr e rf =
     Inr (map Finite (column_sums (n_replicated e) (map (obs_discr_band e) (ok_bands e))),
          map Finite (column_sums (n_replicated e) (map (repl_discr_band e) (ok_bands e))))"
proof -
  let ?n = "n_replicated e"
  have le: "length (obs_flux_err e) = n_bands e" "length (noiseless_flux e) = n_bands e"
    using assms(1,2) by (simp_all add: shapes_ok_def)
  have lt: "\<forall>i \<in> set (ok_bands e). i < n_bands e"
    using ok_bands_lt[of _ e] le(1) by auto
  have r1: "reshape_repeat (obs_flux e) (n_bands e) ?n
            = Inr (map (\<lambda>x. repeat x ?n) (obs_flux e))"
    and r2: "reshape_repeat (obs_flux_err e) (n_bands e) ?n
            = Inr (map (\<lambda>x. repeat x ?n) (obs_flux_err e))"
    using assms(2) le(1) by (simp_all add: reshape_repeat_def)
  have t1: "take_rows (map (\<lambda>x. repeat x ?n) (obs_flux e)) (ok_bands e)
            = Inr (map (\<lambda>i. repeat (obs_flux e ! i) ?n) (ok_bands e))"
    using lt assms(2) by (auto simp: take_rows_def)
  have t2: "take_rows (map (\<lambda>x. repeat x ?n) (obs_flux_err e)) (ok_bands e)
            = Inr (map (\<lambda>i. repeat (obs_flux_err e ! i) ?n) (ok_bands e))"
    using lt le(1) by (auto simp: take_rows_def)
  have t3: "take_rows (noiseless_flux e) (ok_bands e) = Inr (map (\<lambda>i. noiseless_flux e ! i) (ok_bands e))"
    using lt le(2) by (auto simp: take_rows_def)
  have t4: "take_rows rf (ok_bands e) = Inr (map (\<lambda>i. replic_scaled (replic_field e ! i)) (ok_bands e))"
    using lt assms(3,4) by (auto simp: take_rows_def)
  have nz: "\<forall>y \<in> set (vsq (repeat (obs_flux_err e ! i) ?n)). y \<noteq> 0" if "i \<in> set (ok_bands e)" for i
    using ok_bands_lt[OF that] by (auto simp: vsq_def repeat_def)
  have o: "mdiv (msq (msub (map (\<lambda>i. repeat (obs_flux e ! i) ?n) (ok_bands e))
                            (map (\<lambda>i. noiseless_flux e ! i) (ok_bands e))))
                (msq (map (\<lambda>i. repeat (obs_flux_err e ! i) ?n) (ok_bands e)))
           = map (map Finite) (map (obs_discr_band e) (ok_bands e))"
    unfolding mdiv_def msq_def msub_def
    by (simp add: map2_map_same comp_def row_divide_Finite[OF nz] obs_discr_band_def)
  have r: "mdiv (msq (msub (map (\<lambda>i. replic_scaled (replic_field e ! i)) (ok_bands e))
                            (map (\<lambda>i. noiseless_flux e ! i) (ok_bands e))))
                (msq (map (\<lambda>i. repeat (obs_flux_err e ! i) ?n) (ok_bands e)))
           = map (map Finite) (map (repl_discr_band e) (ok_bands e))"
    unfolding mdiv_def msq_def msub_def
    by (simp add: map2_map_same comp_def row_divide_Finite[OF nz] repl_discr_band_def)
  have lo: "\<forall>r \<in> set (map (obs_discr_band e) (ok_bands e)). length r = ?n"
    and lr: "\<forall>r \<in> set (map (repl_discr_band e) (ok_bands e)). length r = ?n"
    using lt length_discr_band[OF assms(1)] by auto
  show ?thesis
    unfolding joint_discr_def r1 r2 and_then_Inr t1 t2 t3 t4 o r
      sum_axis0_Finite[OF lo] sum_axis0_Finite[OF lr] ..
qed

lemma column_sums_nth:
  "d < n \<Longrightarrow> column_sums n (map f idx) ! d = sum_list (map (\<lambda>i. f i ! d) idx)"
  by (simp add: column_sums_def comp_def)

lemma length_column_sums [simp]: "length (column_sums n m) = n"
  by (simp add: column_sums_def)

lemma ppc_closed:
  assumes "shapes_ok e" "length (obs_flux e) = n_bands e" "0 < n_replicated e"
  shows "ppc e = Inr \<lparr>p_value_bands = map (\<lambda>i. if obs_flux_err e ! i > 0 then band_fraction e i else 0) [0..<n_bands e],
            markers = replicate (n_bands e) ''o'',
            joint_obs_discr = map Finite (column_sums (n_replicated e) (map (obs_discr_band e) (ok_bands e))),
            joint_repl_discr = map Finite (column_sums (n_replicated e) (map (repl_discr_band e) (ok_bands e))),
            p_value = real (count_nonzero (vgt (column_sums (n_replicated e) (map (repl_discr_band e) (ok_bands e)))
                                               (column_sums (n_replicated e) (map (obs_discr_band e) (ok_bands e)))))
                      / real (n_replicated e)\<rparr>"
proof -
  have le: "length (obs_flux_err e) = n_bands e" "length (noiseless_flux e) = n_bands e"
    using assms(1,2) by (simp_all add: shapes_ok_def)
  have lp: "p_value_loop e = Inr (map (\<lambda>i. if obs_flux_err e ! i > 0 then band_fraction e i else 0) [0..<n_bands e],
                map (\<lambda>i. if obs_flux_err e ! i > 0 then replic_scaled (replic_field e ! i)
                          else replicate (n_replicated e) 0) [0..<n_bands e])"
    using p_value_loop_closed[of e] le assms(3) by simp
  have jd: "joint_discr e (map (\<lambda>i. if obs_flux_err e ! i > 0 then replic_scaled (replic_field e ! i)
                          else replicate (n_replicated e) 0) [0..<n_bands e])
            = Inr (map Finite (column_sums (n_replicated e) (map (obs_discr_band e) (ok_bands e))),
                   map Finite (column_sums (n_replicated e) (map (repl_discr_band e) (ok_bands e))))"
    using ok_bands_lt[of _ e] le
    by (intro joint_discr_closed) (auto simp: assms(1,2))
  have mk: "markers_of (n_bands e) (map (\<lambda>i. if obs_flux_err e ! i > 0 then band_fraction e i else 0) [0..<n_bands e])
            = Inr (replicate (n_bands e) ''o'')"
    by (rule markers_of_circles) simp
  show ?thesis
    unfolding ppc_def lp and_then_Inr prod.case mk jd
    using assms(3) by (simp add: p_value_of_def np_greater_Finite)
qed

lemma np_where_append:
  "np_where (xs @ ys) = np_where xs @ map (\<lambda>i. i + length xs) (np_where ys)"
proof -
  have a: "filter (\<lambda>i. (xs @ ys) ! i) [0..<length xs] = filter (\<lambda>i. xs ! i) [0..<length xs]"
    by (rule filter_cong) (auto simp: nth_append)
  have "[length xs..<length xs + length ys] = map (\<lambda>i. i + length xs) [0..<length ys]"
    by (simp add: map_add_upt add.commute)
  then have b: "filter (\<lambda>i. (xs @ ys) ! i) [length xs..<length xs + length ys]
           = map (\<lambda>i. i + length xs) (filter (\<lambda>i. ys ! i) [0..<length ys])"
    by (simp add: filter_map comp_def nth_append)
  show ?thesis
    unfolding np_where_def length_append upt_add_eq_append[OF le0] filter_append a b ..
qed

lemma np_where_insert_at_False:
  assumes "k \<le> length bs"
  shows "np_where (insert_at k False bs) = map (shift_band k) (np_where bs)"
proof -
  have lt: "length (take k bs) = k" using assms by simp
  have split: "np_where bs = np_where (take k bs) @ map (\<lambda>i. i + k) (np_where (drop k bs))"
    using np_where_append[of "take k bs" "drop k bs"] lt by simp
  have one: "np_where (False # drop k bs) = map Suc (np_where (drop k bs))"
    using np_where_append[of "[False]" "drop k bs"] by (simp add: np_where_def)
  have ins: "np_where (insert_at k False bs)
             = np_where (take k bs) @ map (\<lambda>i. Suc i + k) (np_where (drop k bs))"
    unfolding insert_at_def np_where_append one lt by (simp add: comp_def)
  have s1: "map (shift_band k) (np_where (take k bs)) = np_where (take k bs)"
    using lt by (intro map_idI) (auto simp: set_np_where shift_band_def)
  have s2: "map (shift_band k) (map (\<lambda>i. i + k) (np_where (drop k bs)))
            = map (\<lambda>i. Suc i + k) (np_where (drop k bs))"
    by (simp add: shift_band_def)
  show ?thesis unfolding ins by (subst split) (simp only: map_append s1 s2)
qed

lemma insert_at_shift:
  assumes "k \<le> length xs"
  shows "insert_at k x xs ! shift_band k i = xs ! i"
proof (cases "i < k")
  case True
  then show ?thesis using assms by (simp add: insert_at_def shift_band_def nth_append)
next
  case False
  then have "Suc i - k = Suc (i - k)" by simp
  with False show ?thesis using assms
    by (simp add: insert_at_def shift_band_def nth_append min_def)
qed

lemma length_insert_at [simp]: "length (insert_at k x xs) = Suc (length xs)"
  by (simp add: insert_at_def)

lemma set_insert_at: "set (insert_at k x xs) = insert x (set xs)"
proof -
  have "set xs = set (take k xs) \<union> set (drop k xs)"
    by (metis append_take_drop_id set_append)
  then show ?thesis by (auto simp: insert_at_def)
qed

lemma ok_bands_insert_band:
  assumes "k \<le> length (obs_flux_err e)"
  shows "ok_bands (insert_band k flux 0 noiseless replic e) = map (shift_band k) (ok_bands e)"
proof -
  have "map (\<lambda>x. x > 0) (insert_at k (0::real) (obs_flux_err e))
        = insert_at k False (map (\<lambda>x. x > 0) (obs_flux_err e))"
    by (simp add: insert_at_def take_map drop_map)
  then show ?thesis
    using np_where_insert_at_False[of k "map (\<lambda>x. x > 0) (obs_flux_err e)"] assms
    by (simp add: ok_bands_def insert_band_def)
qed

lemma discr_band_insert_band:
  assumes "k \<le> n_bands e" "length (obs_flux e) = n_bands e" "length (obs_flux_err e) = n_bands e"
    "length (noiseless_flux e) = n_bands e"
  shows "obs_discr_band (insert_band k flux err noiseless replic e) (shift_band k i) = obs_discr_band e i"
    and "repl_discr_band (insert_band k flux err noiseless replic e) (shift_band k i) = repl_discr_band e i"
  using assms
  by (simp_all add: obs_discr_band_def repl_discr_band_def insert_band_def insert_at_shift n_bands_def)

lemma shapes_ok_insert_band:
  assumes "shapes_ok e" "length noiseless = n_replicated e" "length replic = n_replicated e"
  shows "shapes_ok (insert_band k flux err noiseless replic e)"
  using assms by (auto simp: shapes_ok_def insert_band_def n_bands_def set_insert_at)

lemma joint_rows_insert_band:
  assumes "k \<le> n_bands e" "length (obs_flux e) = n_bands e" "length (obs_flux_err e) = n_bands e"
    "length (noiseless_flux e) = n_bands e"
  shows "map (obs_discr_band (insert_band k flux 0 noiseless replic e))
             (ok_bands (insert_band k flux 0 noiseless replic e)) = map (obs_discr_band e) (ok_bands e)"
    and "map (repl_discr_band (insert_band k flux 0 noiseless replic e))
             (ok_bands (insert_band k flux 0 noiseless replic e)) = map (repl_discr_band e) (ok_bands e)"
  using assms
  by (simp_all add: ok_bands_insert_band discr_band_insert_band comp_def)

lemma joint_sum_set:
  assumes "length (obs_flux_err e) = n_bands e"
  shows "sum_list (map f (ok_bands e)) = (\<Sum>i | i < n_bands e \<and> obs_flux_err e ! i > 0. f i)"
  using assms by (simp add: sum_list_distinct_conv_sum_set distinct_ok_bands set_ok_bands)

text \<open>
  C2. The posterior-predictive check returns, and its joint observed and joint replicated
  discrepancies are finite numbers: at every draw they are the sums, over exactly the bands
  whose observed error is above zero, of the per-band discrepancies, so no quotient by an error
  of zero enters them. The joint p-value is the number of draws whose joint replicated
  discrepancy is strictly above the joint observed one, divided by the number of draws. A band
  with observed error 0 put at any position (so also the removal of such a band) leaves both
  joint discrepancies and the joint p-value as they are.
\<close>

theorem joint_discrepancy_over_positive_error_bands:
  assumes "shapes_ok e" and "length (obs_flux e) = n_bands e" and "0 < n_replicated e"
  shows "\<exists>s od rd. ppc e = Inr s \<and>
     joint_obs_discr s = map Finite od \<and> joint_repl_discr s = map Finite rd \<and>
     length od = n_replicated e \<and> length rd = n_replicated e \<and>
     (\<forall>d < n_replicated e.
        od ! d =
          (\<Sum>i | i < n_bands e \<and> obs_flux_err e ! i > 0.
             (obs_flux e ! i - noiseless_flux e ! i ! d)\<^sup>2 / (obs_flux_err e ! i)\<^sup>2) \<and>
        rd ! d =
          (\<Sum>i | i < n_bands e \<and> obs_flux_err e ! i > 0.
             (replic_field e ! i ! d / (1 / 10 ^ 9) - noiseless_flux e ! i ! d)\<^sup>2 / (obs_flux_err e ! i)\<^sup>2)) \<and>
     p_value s = real (card {d. d < n_replicated e \<and> rd ! d > od ! d}) / real (n_replicated e) \<and>
     (\<forall>k flux noiseless replic.
        k \<le> n_bands e \<and> length noiseless = n_replicated e \<and> length replic = n_replicated e \<longrightarrow>
        (\<exists>s'. ppc (insert_band k flux 0 noiseless replic e) = Inr s' \<and>
              joint_obs_discr s' = joint_obs_discr s \<and>
              joint_repl_discr s' = joint_repl_discr s \<and>
              p_value s' = p_value s))"
proof -
  have le: "length (obs_flux_err e) = n_bands e" "length (noiseless_flux e) = n_bands e"
    using assms(1,2) by (simp_all add: shapes_ok_def)
  let ?n = "n_replicated e"
  let ?od = "column_sums ?n (map (obs_discr_band e) (ok_bands e))"
  let ?rd = "column_sums ?n (map (repl_discr_band e) (ok_bands e))"
  have od: "?od ! d = (\<Sum>i | i < n_bands e \<and> obs_flux_err e ! i > 0.
             (obs_flux e ! i - noiseless_flux e ! i ! d)\<^sup>2 / (obs_flux_err e ! i)\<^sup>2)" if "d < ?n" for d
  proof -
    have "?od ! d = (\<Sum>i | i < n_bands e \<and> obs_flux_err e ! i > 0. obs_discr_band e i ! d)"
      using that by (simp add: column_sums_nth joint_sum_set[OF le(1)])
    also have "\<dots> = (\<Sum>i | i < n_bands e \<and> obs_flux_err e ! i > 0.
             (obs_flux e ! i - noiseless_flux e ! i ! d)\<^sup>2 / (obs_flux_err e ! i)\<^sup>2)"
      by (rule sum.cong) (auto simp: obs_discr_band_nth(2)[OF assms(1) _ that])
    finally show ?thesis .
  qed
  have rd: "?rd ! d = (\<Sum>i | i < n_bands e \<and> obs_flux_err e ! i > 0.
             (replic_field e ! i ! d / (1 / 10 ^ 9) - noiseless_flux e ! i ! d)\<^sup>2 / (obs_flux_err e ! i)\<^sup>2)"
    if "d < ?n" for d
  proof -
    have "?rd ! d = (\<Sum>i | i < n_bands e \<and> obs_flux_err e ! i > 0. repl_discr_band e i ! d)"
      using that by (simp add: column_sums_nth joint_sum_set[OF le(1)])
    also have "\<dots> = (\<Sum>i | i < n_bands e \<and> obs_flux_err e ! i > 0.
             (replic_field e ! i ! d / (1 / 10 ^ 9) - noiseless_flux e ! i ! d)\<^sup>2 / (obs_flux_err e ! i)\<^sup>2)"
      by (rule sum.cong) (auto simp: repl_discr_band_nth(2)[OF assms(1) _ that])
    finally show ?thesis .
  qed
  have pv: "real (count_nonzero (vgt ?rd ?od)) / real ?n
            = real (card {d. d < ?n \<and> ?rd ! d > ?od ! d}) / real ?n"
    by (simp add: count_nonzero_vgt[of ?rd ?n ?od])
  define s where "s = \<lparr>p_value_bands = map (\<lambda>i. if obs_flux_err e ! i > 0 then band_fraction e i else 0) [0..<n_bands e],
            markers = replicate (n_bands e) ''o'',
            joint_obs_discr = map Finite ?od, joint_repl_discr = map Finite ?rd,
            p_value = real (count_nonzero (vgt ?rd ?od)) / real ?n\<rparr>"
  have s: "ppc e = Inr s" unfolding s_def by (rule ppc_closed[OF assms])
  have sf: "joint_obs_discr s = map Finite ?od" "joint_repl_discr s = map Finite ?rd"
    "p_value s = real (count_nonzero (vgt ?rd ?od)) / real ?n"
    by (simp_all add: s_def)
  have ins: "\<exists>s'. ppc (insert_band k flux 0 noiseless replic e) = Inr s' \<and>
              joint_obs_discr s' = joint_obs_discr s \<and> joint_repl_discr s' = joint_repl_discr s \<and>
              p_value s' = p_value s"
    if "k \<le> n_bands e \<and> length noiseless = ?n \<and> length replic = ?n" for k flux noiseless replic
  proof -
    let ?e' = "insert_band k flux 0 noiseless replic e"
    from that have k: "k \<le> n_bands e" and ln: "length noiseless = ?n" and lr: "length replic = ?n"
      by simp_all
    have n': "n_replicated ?e' = ?n" by (simp add: insert_band_def)
    have s': "shapes_ok ?e'" using shapes_ok_insert_band[OF assms(1) ln lr] .
    have l': "length (obs_flux ?e') = n_bands ?e'"
      using assms(2) by (simp add: insert_band_def n_bands_def)
    have p': "0 < n_replicated ?e'" using assms(3) n' by simp
    show ?thesis
      unfolding ppc_closed[OF s' l' p'] n' sf
        joint_rows_insert_band[OF k assms(2) le]
      by simp
  qed
  show ?thesis
  proof (rule exI[of _ s], rule exI[of _ ?od], rule exI[of _ ?rd], intro conjI allI impI)
    show "ppc e = Inr s" by (rule s)
    show "joint_obs_discr s = map Finite ?od" by (rule sf(1))
    show "joint_repl_discr s = map Finite ?rd" by (rule sf(2))
    show "length ?od = ?n" by simp
    show "length ?rd = ?n" by simp
    show "p_value s = real (card {d. d < ?n \<and> ?rd ! d > ?od ! d}) / real ?n"
      unfolding sf(3) by (rule pv)
  next
    fix d assume "d < ?n"
    then show "?od ! d = (\<Sum>i | i < n_bands e \<and> obs_flux_err e ! i > 0.
             (obs_flux e ! i - noiseless_flux e ! i ! d)\<^sup>2 / (obs_flux_err e ! i)\<^sup>2)" by (rule od)
  next
    fix d assume "d < ?n"
    then show "?rd ! d = (\<Sum>i | i < n_bands e \<and> obs_flux_err e ! i > 0.
             (replic_field e ! i ! d / (1 / 10 ^ 9) - noiseless_flux e ! i ! d)\<^sup>2 / (obs_flux_err e ! i)\<^sup>2)"
      by (rule rd)
  next
    fix k flux and noiseless replic :: "real list"
    assume "k \<le> n_bands e \<and> length noiseless = ?n \<and> length replic = ?n"
    then show "\<exists>s'. ppc (insert_band k flux 0 noiseless replic e) = Inr s' \<and>
              joint_obs_discr s' = joint_obs_discr s \<and> joint_repl_discr s' = joint_repl_discr s \<and>
              p_value s' = p_value s" by (rule ins)
  qed
qed

theorem joint_discrepancy_over_positive_error_bands_witness:
  "let e = \<lparr>obs_flux = [11, 5], obs_flux_err = [1, 0], noiseless_flux = [[10, 10], [4, 4]],
            replic_field = [[11 / 10 ^ 9, 13 / 10 ^ 9], [7 / 10 ^ 9, 8 / 10 ^ 9]], n_replicated = 2\<rparr>
   in shapes_ok e \<and> length (obs_flux e) = n_bands e \<and> 0 < n_replicated e \<and>
      (\<exists>s s'. ppc e = Inr s \<and>
               ppc (insert_band 1 6 0 [3, 3] [8 / 10 ^ 9, 9 / 10 ^ 9] e) = Inr s' \<and>
               joint_obs_discr s = [Finite 1, Finite 1] \<and>
               joint_repl_discr s = [Finite 1, Finite 9] \<and> p_value s = 1 / 2 \<and>
               joint_obs_discr s' = joint_obs_discr s \<and>
               joint_repl_discr s' = joint_repl_discr s \<and> p_value s' = p_value s)"
proof -
  define e where "e = \<lparr>obs_flux = [11, 5], obs_flux_err = [1, 0], noiseless_flux = [[10, 10], [4, 4]],
            replic_field = [[11 / 10 ^ 9, 13 / 10 ^ 9], [7 / 10 ^ 9, 8 / 10 ^ 9]], n_replicated = 2\<rparr>"
  have h: "shapes_ok e" "length (obs_flux e) = n_bands e" "0 < n_replicated e"
    by (simp_all add: e_def shapes_ok_def n_bands_def)
  have bands: "{i. i < n_bands e \<and> obs_flux_err e ! i > 0} = {0}"
    by (auto simp: e_def n_bands_def less_Suc_eq numeral_2_eq_2)
  have k: "1 \<le> n_bands e \<and> length [3, 3 :: real] = n_replicated e \<and>
           length [8 / 10 ^ 9, 9 / 10 ^ 9 :: real] = n_replicated e"
    by (simp add: e_def n_bands_def)
  have n: "n_replicated e = 2" by (simp add: e_def)
  from joint_discrepancy_over_positive_error_bands[OF h] obtain s od rd where
    s: "ppc e = Inr s"
    and fin: "joint_obs_discr s = map Finite od" "joint_repl_discr s = map Finite rd"
    and len: "length od = n_replicated e" "length rd = n_replicated e"
    and sums: "\<forall>d < n_replicated e.
        od ! d =
          (\<Sum>i | i < n_bands e \<and> obs_flux_err e ! i > 0.
             (obs_flux e ! i - noiseless_flux e ! i ! d)\<^sup>2 / (obs_flux_err e ! i)\<^sup>2) \<and>
        rd ! d =
          (\<Sum>i | i < n_bands e \<and> obs_flux_err e ! i > 0.
             (replic_field e ! i ! d / (1 / 10 ^ 9) - noiseless_flux e ! i ! d)\<^sup>2 / (obs_flux_err e ! i)\<^sup>2)"
    and pv: "p_value s = real (card {d. d < n_replicated e \<and> rd ! d > od ! d}) / real (n_replicated e)"
    and ins: "\<forall>k flux noiseless replic.
        k \<le> n_bands e \<and> length noiseless = n_replicated e \<and> length replic = n_replicated e \<longrightarrow>
        (\<exists>s'. ppc (insert_band k flux 0 noiseless replic e) = Inr s' \<and>
              joint_obs_discr s' = joint_obs_discr s \<and>
              joint_repl_discr s' = joint_repl_discr s \<and>
              p_value s' = p_value s)"
    by blast
  from ins k obtain s' where s': "ppc (insert_band 1 6 0 [3, 3] [8 / 10 ^ 9, 9 / 10 ^ 9] e) = Inr s'"
    "joint_obs_discr s' = joint_obs_discr s" "joint_repl_discr s' = joint_repl_discr s"
    "p_value s' = p_value s" by blast
  have v: "od ! 0 = 1" "od ! 1 = 1" "rd ! 0 = 1" "rd ! 1 = 9"
    using sums unfolding bands n by (simp_all add: e_def)
  have od: "od = [1, 1]" and rd: "rd = [1, 9]"
    using len v unfolding n by (auto simp: length_Suc_conv numeral_2_eq_2)
  have "{d. d < n_replicated e \<and> rd ! d > od ! d} = {1}"
    unfolding n od rd by (auto simp: less_Suc_eq numeral_2_eq_2)
  with pv have p: "p_value s = 1 / 2" unfolding n by simp
  have j: "joint_obs_discr s = [Finite 1, Finite 1]" "joint_repl_discr s = [Finite 1, Finite 9]"
    using fin od rd by simp_all
  from h s s' j p show ?thesis unfolding Let_def e_def[symmetric] by blast
qed

subsection \<open>The residuals\<close>

text \<open>
  C4. The claim is that no expression of the posterior-predictive check divides by an observed
  error of 0. Lines 495 and 498 divide by \<open>obs_flux_err\<close> for every band: for two bands of
  which the second has error 0 and one draw, the mean residual and the residual of the second
  band are not finite, while the p-values of lines 455 to 479, which apply the mask, are
  computed.
\<close>

theorem residuals_divide_by_zero_error:
  "mean_residual masked_band_example = Inr [Some 2, None] \<and>
   residual_fluxes masked_band_example = Inr [[Some 2], [None]] \<and>
   map_sum id p_value_bands (ppc masked_band_example) = Inr [1, 0]"
proof -
  have "shapes_ok masked_band_example"
    by (simp add: masked_band_example_def shapes_ok_def n_bands_def)
  then have "map_sum id p_value_bands (ppc masked_band_example) = Inr [1, 0]"
    by (subst ppc_closed)
       (simp_all add: masked_band_example_def n_bands_def band_fraction_def count_nonzero_def
          vgt_def repl_discr_band_def obs_discr_band_def vdiv_def vsq_def vsub_def repeat_def
          replic_scaled_def)
  moreover have "mean_residual masked_band_example = Inr [Some 2, None]"
    by (simp add: masked_band_example_def mean_residual_def np_mean_def np_divide_def
          n_bands_def Let_def)
  moreover have "residual_fluxes masked_band_example = Inr [[Some 2], [None]]"
    by (simp add: masked_band_example_def residual_fluxes_def np_divide_def n_bands_def
          reshape_repeat_def repeat_def msub_def vsub_def replic_scaled_def Let_def)
  ultimately show ?thesis by simp
qed

subsection \<open>The limits of the y-axis\<close>

text \<open>
  C6. The claim is that the limits of the y-axis cover the observed fluxes plus and minus their
  errors as well as the predicted fluxes. For two bands at the wavelengths 1 and 2, both
  predicted between 1 and 2, and observed at 100 with error 1 and at 0.5 with error 0.25, the
  plotter runs through both loops and lines 268 to 277 give the limits 0.075 and 2.175. The
  lower limit lies below the smallest observed flux minus its error, 0.25; the upper limit comes
  from the predicted fluxes alone and lies below the observed flux 100 and so below 100 plus
  its error.
\<close>

theorem y_limits_ignore_observed_upper_range:
  "marginal_y_limits uniform_violin [1, 1]
     [[1 / 10 ^ 32, 2 / 10 ^ 32], [1 / 10 ^ 32, 2 / 10 ^ 32]] [1, 2] [100, 1 / 2] [1, 1 / 4]
   = Inr (3 / 40, 87 / 40) \<and>
   y_limits [100, 1 / 2] [1, 1 / 4] [1, 1] [2, 2] = Inr (3 / 40, 87 / 40) \<and>
   (3 / 40 :: real) < 1 / 2 - 1 / 4 \<and> (87 / 40 :: real) < 100 + 1"
  by (simp add: marginal_y_limits_def y_limits_def take_rows_def
        marginal_bands_def upt_rec[of 0] marginal_band_def marginal_init_def np_min_def np_max_def
        np_where_def wl_diff_def vsub_def nanoJy_def uniform_violin_def uniform_pdf_def
        delta_wl_of_def render_band_def dwl_of_def slice_def np_divide_def repeat_def and_then_def
        Let_def)

subsection \<open>The observed photometry and the aperture correction\<close>

lemma field_of_agree:
  assumes "\<forall>name. name \<noteq> ''aper_corr'' \<longrightarrow> r1 name = r2 name" "j < length names"
    "''aper_corr'' \<notin> set names"
  shows "field_of r1 (names ! j) = field_of r2 (names ! j)"
proof -
  have "names ! j \<noteq> ''aper_corr''" using assms(2,3) nth_mem by fastforce
  then show ?thesis using assms(1) by (simp add: field_of_def)
qed

lemma extract_band_agree:
  assumes "\<forall>name. name \<noteq> ''aper_corr'' \<longrightarrow> r1 name = r2 name"
    "''aper_corr'' \<notin> set (flux_colName filters)" "''aper_corr'' \<notin> set (flux_errcolName filters)"
  shows "extract_band filters r1 a j = extract_band filters r2 a j"
proof (cases "j < length (flux_colName filters)")
  case False
  then show ?thesis by (simp add: extract_band_def)
next
  case c: True
  note f1 = field_of_agree[OF assms(1) c assms(2)]
  show ?thesis
  proof (cases "j < length (flux_errcolName filters)")
    case False
    then show ?thesis using c f1 by (simp add: extract_band_def)
  next
    case True
    note f2 = field_of_agree[OF assms(1) True assms(3)]
    show ?thesis using c True by (simp add: extract_band_def f1 f2)
  qed
qed

lemma observed_photometry_agree:
  assumes names: "dtype_names c1 = dtype_names c2"
    and ids: "rows c1 ID = None \<longleftrightarrow> rows c2 ID = None"
    and same: "\<forall>r1 r2 name. rows c1 ID = Some r1 \<and> rows c2 ID = Some r2 \<and> name \<noteq> ''aper_corr''
                 \<longrightarrow> r1 name = r2 name"
    and col: "\<forall>r1 r2. rows c1 ID = Some r1 \<and> rows c2 ID = Some r2
                 \<longrightarrow> (r1 ''aper_corr'' = None \<longleftrightarrow> r2 ''aper_corr'' = None)"
    and flt: "''aper_corr'' \<notin> set (flux_colName filters)" "''aper_corr'' \<notin> set (flux_errcolName filters)"
  shows "observed_photometry c1 filters ID = observed_photometry c2 filters ID"
proof (cases "rows c1 ID")
  case None
  with ids have "rows c2 ID = None" by simp
  with None show ?thesis by (simp add: observed_photometry_def extract_row_def)
next
  case (Some r1)
  with ids obtain r2 where r2: "rows c2 ID = Some r2" by auto
  have ag: "\<forall>name. name \<noteq> ''aper_corr'' \<longrightarrow> r1 name = r2 name"
    using same Some r2 by blast
  have ex: "extract_fluxes c1 filters ID a = extract_fluxes c2 filters ID a" for a
    using Some r2 by (simp add: extract_fluxes_def extract_row_def extract_band_agree[OF ag flt])
  have ap: "r1 ''aper_corr'' = None \<longleftrightarrow> r2 ''aper_corr'' = None"
    using col Some r2 by blast
  show ?thesis
    using Some r2 ap names
    by (cases "r1 ''aper_corr''"; cases "r2 ''aper_corr''")
       (simp_all add: observed_photometry_def extract_row_def ex field_of_def)
qed

text \<open>
  C9. The observed fluxes and errors that both plotters use do not depend on the values of the
  catalogue's \<open>aper_corr\<close> column: the correction factor is computed but
  \<^verbatim>\<open>extract_fluxes\<close> is called with its default \<open>aper_corr = 1\<close>. Two catalogues with the
  same column names whose rows for the object agree on every column but \<open>aper_corr\<close>, which
  both have or both lack, give the same result, exceptions included. The flux and error columns
  of the filters are columns other than \<open>aper_corr\<close>.
\<close>

theorem observed_fluxes_independent_of_aper_corr:
  assumes "dtype_names c1 = dtype_names c2"
    and "rows c1 ID = None \<longleftrightarrow> rows c2 ID = None"
    and "\<forall>r1 r2 name. rows c1 ID = Some r1 \<and> rows c2 ID = Some r2 \<and> name \<noteq> ''aper_corr''
                 \<longrightarrow> r1 name = r2 name"
    and "\<forall>r1 r2. rows c1 ID = Some r1 \<and> rows c2 ID = Some r2
                 \<longrightarrow> (r1 ''aper_corr'' = None \<longleftrightarrow> r2 ''aper_corr'' = None)"
    and "''aper_corr'' \<notin> set (flux_colName filters)"
    and "''aper_corr'' \<notin> set (flux_errcolName filters)"
  shows "observed_photometry c1 filters ID = observed_photometry c2 filters ID"
  using assms by (rule observed_photometry_agree)

theorem observed_fluxes_independent_of_aper_corr_witness:
  "let flt = \<lparr>filters_n_bands = 1, flux_colName = [''f1''], flux_errcolName = [''e1''],
              min_rel_err = [0], units = 1 / 10 ^ 23, wl_eff = [1]\<rparr>;
       c1 = \<lparr>dtype_names = [''ID'', ''f1'', ''e1'', ''aper_corr''],
              rows = [''7'' \<mapsto> [''f1'' \<mapsto> 2, ''e1'' \<mapsto> 1, ''aper_corr'' \<mapsto> 0]]\<rparr>;
       c2 = \<lparr>dtype_names = [''ID'', ''f1'', ''e1'', ''aper_corr''],
              rows = [''7'' \<mapsto> [''f1'' \<mapsto> 2, ''e1'' \<mapsto> 1, ''aper_corr'' \<mapsto> 5 / 2]]\<rparr>
   in observed_photometry c1 flt ''7'' = Inr ([2 * 10 ^ 9], [Some (10 ^ 9)]) \<and>
      observed_photometry c2 flt ''7'' = Inr ([2 * 10 ^ 9], [Some (10 ^ 9)])"
proof -
  define flt where "flt = \<lparr>filters_n_bands = 1, flux_colName = [''f1''], flux_errcolName = [''e1''],
              min_rel_err = [0], units = 1 / 10 ^ 23, wl_eff = [1]\<rparr>"
  define c1 :: "string catalogue" where "c1 = \<lparr>dtype_names = [''ID'', ''f1'', ''e1'', ''aper_corr''],
              rows = [''7'' \<mapsto> [''f1'' \<mapsto> 2, ''e1'' \<mapsto> 1, ''aper_corr'' \<mapsto> 0]]\<rparr>"
  define c2 :: "string catalogue" where "c2 = \<lparr>dtype_names = [''ID'', ''f1'', ''e1'', ''aper_corr''],
              rows = [''7'' \<mapsto> [''f1'' \<mapsto> 2, ''e1'' \<mapsto> 1, ''aper_corr'' \<mapsto> 5 / 2]]\<rparr>"
  have eq: "observed_photometry c1 flt ''7'' = observed_photometry c2 flt ''7''"
    by (rule observed_fluxes_independent_of_aper_corr) (simp_all add: c1_def c2_def flt_def)
  have v: "observed_photometry c1 flt ''7'' = Inr ([2 * 10 ^ 9], [Some (10 ^ 9)])"
    by (simp add: observed_photometry_def extract_row_def field_of_def extract_fluxes_def
          extract_band_def np_divide_def and_then_def Jy_def c1_def flt_def Let_def)
  from eq v show ?thesis unfolding Let_def c1_def[symmetric] c2_def[symmetric] flt_def[symmetric]
    by simp
qed

subsection \<open>Existing plots\<close>

lemma prepare_plot_saving_name:
  "fst (prepare_plot_saving w rd stamp file_name ov)
   = os_path_join (os_path_join rd pybangs_plot) (basename file_name)"
  by (simp add: prepare_plot_saving_def Let_def)

lemma saved_under_name:
  "prepare_plot_saving w rd stamp file_name ov = (name, w') \<Longrightarrow> files (savefig w' name fig) name = Some fig"
  by (simp add: savefig_def)

text \<open>
  C7. When the plot of an object already exists, \<^verbatim>\<open>plot_marginal\<close> with \<open>replot = False\<close>
  and \<open>show = False\<close>, and \<^verbatim>\<open>plot_replicated_data\<close> with \<open>replot = False\<close>, return at
  once: the file system is as before, whatever the rest of the function would have computed or
  raised. With \<open>replot = True\<close> the check is passed over: the figure is computed (its
  exception, if any, is the outcome) and saved under the plot's name.
\<close>

theorem existing_plot_skipped_unless_replot:
  "(plot_exists w rd (ID @ ''_BANGS_marginal_SED_phot.pdf'') \<longrightarrow>
      plot_marginal w rd stamp figure ID False False = Inr w) \<and>
   (plot_exists w rd (ID @ ''_BANGS_replic_data_phot.pdf'') \<longrightarrow>
      plot_replicated_data w rd stamp figure ID False = Inr w) \<and>
   (\<exists>w'. plot_marginal w rd stamp (Inr fig) ID True False = Inr w' \<and>
         files w' (os_path_join (os_path_join rd pybangs_plot)
                     (basename (ID @ ''_BANGS_marginal_SED_phot.pdf''))) = Some fig) \<and>
   (\<exists>w'. plot_replicated_data w rd stamp (Inr fig) ID True = Inr w' \<and>
         files w' (os_path_join (os_path_join rd pybangs_plot)
                     (basename (ID @ ''_BANGS_replic_data_phot.pdf''))) = Some fig) \<and>
   plot_marginal w rd stamp (Inl err) ID True False = Inl err \<and>
   plot_replicated_data w rd stamp (Inl err) ID True = Inl err"
proof (intro conjI impI)
  show "plot_marginal w rd stamp figure ID False False = Inr w"
    if "plot_exists w rd (ID @ ''_BANGS_marginal_SED_phot.pdf'')"
    using that by (simp add: plot_marginal_def)
  show "plot_replicated_data w rd stamp figure ID False = Inr w"
    if "plot_exists w rd (ID @ ''_BANGS_replic_data_phot.pdf'')"
    using that by (simp add: plot_replicated_data_def)
  show "\<exists>w'. plot_marginal w rd stamp (Inr fig) ID True False = Inr w' \<and>
         files w' (os_path_join (os_path_join rd pybangs_plot)
                     (basename (ID @ ''_BANGS_marginal_SED_phot.pdf''))) = Some fig"
    using prepare_plot_saving_name[of w rd stamp "ID @ ''_BANGS_marginal_SED_phot.pdf''" False]
    by (auto simp: plot_marginal_def and_then_def savefig_def split: prod.splits)
  show "\<exists>w'. plot_replicated_data w rd stamp (Inr fig) ID True = Inr w' \<and>
         files w' (os_path_join (os_path_join rd pybangs_plot)
                     (basename (ID @ ''_BANGS_replic_data_phot.pdf''))) = Some fig"
    using prepare_plot_saving_name[of w rd stamp "ID @ ''_BANGS_replic_data_phot.pdf''" False]
    by (auto simp: plot_replicated_data_def and_then_def savefig_def split: prod.splits)
  show "plot_marginal w rd stamp (Inl err) ID True False = Inl err"
    by (simp add: plot_marginal_def and_then_def)
  show "plot_replicated_data w rd stamp (Inl err) ID True = Inl err"
    by (simp add: plot_replicated_data_def and_then_def)
qed

theorem existing_plot_skipped_unless_replot_witness:
  "let w = \<lparr>dirs = {''res/pybangs/plot''},
            files = [''res/pybangs/plot/7_BANGS_marginal_SED_phot.pdf'' \<mapsto> (1::nat),
                     ''res/pybangs/plot/7_BANGS_replic_data_phot.pdf'' \<mapsto> 2]\<rparr>
   in plot_exists w ''res'' (''7'' @ ''_BANGS_marginal_SED_phot.pdf'') \<and>
      plot_exists w ''res'' (''7'' @ ''_BANGS_replic_data_phot.pdf'') \<and>
      plot_marginal w ''res'' ''-20161104-120000'' (Inl ValueError) ''7'' False False = Inr w \<and>
      plot_replicated_data w ''res'' ''-20161104-120000'' (Inl ValueError) ''7'' False = Inr w \<and>
      (\<exists>w'. plot_marginal w ''res'' ''-20161104-120000'' (Inr 9) ''7'' True False = Inr w' \<and>
            files w' ''res/pybangs/plot/7_BANGS_marginal_SED_phot.pdf'' = Some 9)"
proof -
  define w :: "nat world" where "w = \<lparr>dirs = {''res/pybangs/plot''},
            files = [''res/pybangs/plot/7_BANGS_marginal_SED_phot.pdf'' \<mapsto> (1::nat),
                     ''res/pybangs/plot/7_BANGS_replic_data_phot.pdf'' \<mapsto> 2]\<rparr>"
  have e1: "plot_exists w ''res'' (''7'' @ ''_BANGS_marginal_SED_phot.pdf'')"
    and e2: "plot_exists w ''res'' (''7'' @ ''_BANGS_replic_data_phot.pdf'')"
    by (simp_all add: plot_exists_def isfile_def os_path_join_def pybangs_plot_def w_def)
  have p: "os_path_join (os_path_join ''res'' pybangs_plot)
             (basename (''7'' @ ''_BANGS_marginal_SED_phot.pdf''))
           = ''res/pybangs/plot/7_BANGS_marginal_SED_phot.pdf''"
    by (simp add: os_path_join_def pybangs_plot_def basename_def)
  note t = existing_plot_skipped_unless_replot[of w "''res''" "''7''" "''-20161104-120000''"
             "Inl ValueError" 9 ValueError]
  from t e1
  have m: "plot_marginal w ''res'' ''-20161104-120000'' (Inl ValueError) ''7'' False False = Inr w"
    by blast
  from t e2
  have r: "plot_replicated_data w ''res'' ''-20161104-120000'' (Inl ValueError) ''7'' False = Inr w"
    by blast
  from t have g: "\<exists>w'. plot_marginal w ''res'' ''-20161104-120000'' (Inr 9) ''7'' True False = Inr w' \<and>
            files w' ''res/pybangs/plot/7_BANGS_marginal_SED_phot.pdf'' = Some 9"
    unfolding p by blast
  from e1 e2 m r g show ?thesis unfolding Let_def w_def[symmetric] by blast
qed

subsection \<open>The marginal photometry plot\<close>

lemma for_loop_invariant:
  assumes "for_loop xs body s = Inr s'" "I s"
    "\<And>j t t'. j \<in> set xs \<Longrightarrow> I t \<Longrightarrow> body j t = Inr t' \<Longrightarrow> I t'"
  shows "I s'"
  using assms
proof (induction xs arbitrary: s)
  case Nil
  then show ?case by simp
next
  case (Cons j xs)
  from Cons.prems(1) obtain t where t: "body j s = Inr t" "for_loop xs body t = Inr s'"
    by (auto split: sum.splits)
  have It: "I t" using Cons.prems(3)[of j s t] Cons.prems(2) t(1) by simp
  show ?case
  proof (rule Cons.IH[OF t(2) It])
    fix k u u' assume "k \<in> set xs" "I u" "body k u = Inr u'"
    then show "I u'" using Cons.prems(3)[of k u u'] by simp
  qed
qed

lemma for_loop_establish:
  assumes "for_loop xs body s = Inr s'" "I s" "distinct xs" "i \<in> set xs \<or> Q s"
    "\<And>j t t'. j \<in> set xs \<Longrightarrow> I t \<Longrightarrow> body j t = Inr t' \<Longrightarrow> I t'"
    "\<And>t t'. I t \<Longrightarrow> body i t = Inr t' \<Longrightarrow> Q t'"
    "\<And>j t t'. j \<in> set xs \<Longrightarrow> j \<noteq> i \<Longrightarrow> I t \<Longrightarrow> Q t \<Longrightarrow> body j t = Inr t' \<Longrightarrow> Q t'"
  shows "Q s'"
  using assms
proof (induction xs arbitrary: s)
  case Nil
  then show ?case by simp
next
  case (Cons j xs)
  from Cons.prems(1) obtain t where t: "body j s = Inr t" "for_loop xs body t = Inr s'"
    by (auto split: sum.splits)
  have It: "I t" using Cons.prems(5)[of j s t] Cons.prems(2) t(1) by simp
  have d: "distinct xs" "j \<notin> set xs" using Cons.prems(3) by simp_all
  have next_ok: "i \<in> set xs \<or> Q t"
  proof (cases "j = i")
    case True
    then show ?thesis using Cons.prems(6)[OF Cons.prems(2)] t(1) by simp
  next
    case False
    then show ?thesis
      using Cons.prems(4) Cons.prems(7)[of j s t] Cons.prems(2) t(1) by auto
  qed
  show ?case
  proof (rule Cons.IH[OF t(2) It d(1) next_ok])
    fix k u u' assume "k \<in> set xs" "I u" "body k u = Inr u'"
    then show "I u'" using Cons.prems(5)[of k u u'] by simp
  next
    fix u u' assume "I u" "body i u = Inr u'"
    then show "Q u'" by (rule Cons.prems(6))
  next
    fix k u u' assume "k \<in> set xs" "k \<noteq> i" "I u" "Q u" "body k u = Inr u'"
    then show "Q u'" using Cons.prems(7)[of k u u'] by simp
  qed
qed

lemma map_result_nth:
  assumes "map_result f xs = Inr ys"
  shows "length ys = length xs \<and> (\<forall>k < length xs. f (xs ! k) = Inr (ys ! k))"
  using assms
proof (induction xs arbitrary: ys)
  case Nil
  then show ?case by simp
next
  case (Cons x xs)
  from Cons.prems obtain y zs where y: "f x = Inr y" "map_result f xs = Inr zs" "ys = y # zs"
    by (auto simp: and_then_def split: sum.splits)
  from Cons.IH[OF y(2)] y show ?case by (auto simp: nth_Cons')
qed

lemma np_min_const:
  assumes "xs \<noteq> []" "\<forall>x \<in> set xs. x = c"
  shows "np_min xs = Inr c" "np_max xs = Inr c"
proof -
  have f: "fold min r c = c \<and> fold max r c = c" if "\<forall>x \<in> set r. x = c" for r
    using that by (induction r) simp_all
  from assms obtain r where "xs = c # r" by (cases xs) auto
  with assms(2) f[of r] show "np_min xs = Inr c" "np_max xs = Inr c"
    by (simp_all add: np_min_def np_max_def)
qed

lemma np_max_Max: "xs \<noteq> [] \<Longrightarrow> np_max xs = Inr (Max (set xs))"
proof (cases xs)
  case (Cons a r)
  then show ?thesis using Max.set_eq_fold[of a r] by (simp add: np_max_def)
qed simp

lemma np_min_Min: "xs \<noteq> [] \<Longrightarrow> np_min xs = Inr (Min (set xs))"
proof (cases xs)
  case (Cons a r)
  then show ?thesis using Min.set_eq_fold[of a r] by (simp add: np_min_def)
qed simp

lemma np_max_Inr: "np_max xs = Inr m \<Longrightarrow> xs \<noteq> [] \<and> m = Max (set xs)"
  using np_max_Max[of xs] by (cases xs) (auto simp: np_max_def)

lemma np_min_Inr: "np_min xs = Inr m \<Longrightarrow> xs \<noteq> [] \<and> m = Min (set xs)"
  using np_min_Min[of xs] by (cases xs) (auto simp: np_min_def)

lemma marginal_band_degenerate:
  assumes "model_sed ! i \<noteq> []" "\<forall>x \<in> set (model_sed ! i). x = c"
  shows "marginal_band pvp probability model_sed i st =
           Inr (st\<lparr>min_flux := (min_flux st)[i := c / nanoJy],
                    max_flux := (max_flux st)[i := c / nanoJy],
                    has_pdf := (has_pdf st)[i := False],
                    median_flux := (median_flux st)[i := c / nanoJy]\<rparr>)"
proof -
  let ?xdata = "map (\<lambda>x. x / nanoJy) (model_sed ! i)"
  have "?xdata \<noteq> []" "\<forall>x \<in> set ?xdata. x = c / nanoJy" using assms by auto
  from np_min_const[OF this] show ?thesis
    by (simp add: marginal_band_def Let_def)
qed

lemma marginal_band_frame:
  assumes "marginal_band pvp probability model_sed j t = Inr t'" "arrays_of_length n t"
  shows "arrays_of_length n t'"
    and "k \<noteq> j \<Longrightarrow> has_pdf t' ! k = has_pdf t ! k \<and> median_flux t' ! k = median_flux t ! k \<and>
           x_plot t' ! k = x_plot t ! k \<and> y_plot t' ! k = y_plot t ! k \<and>
           kde_pdf t' ! k = kde_pdf t ! k \<and> pdf_norm t' ! k = pdf_norm t ! k \<and>
           max_y t' ! k = max_y t ! k"
  using assms
  by (auto simp: marginal_band_def Let_def and_then_def arrays_of_length_def
           split: sum.splits if_splits prod.splits)

lemma nondegenerate_min_max:
  assumes "a \<in> set xs" "b \<in> set xs" "a \<noteq> b" "np_min xs = Inr lo" "np_max xs = Inr hi"
  shows "lo \<noteq> hi"
proof
  assume eq: "lo = hi"
  from np_min_Inr[OF assms(4)] np_max_Inr[OF assms(5)]
  have lo: "lo = Min (set xs)" and hi: "hi = Max (set xs)" by simp_all
  have "lo \<le> a" "a \<le> hi" "lo \<le> b" "b \<le> hi"
    using assms(1,2) lo hi by simp_all
  with eq assms(3) show False by simp
qed

lemma marginal_band_violin:
  assumes "marginal_band pvp probability model_sed i t = Inr t'" "arrays_of_length n t" "i < n"
    and "a \<in> set (model_sed ! i)" "b \<in> set (model_sed ! i)" "a \<noteq> b"
    and "pvp (map (\<lambda>x. x / nanoJy) (model_sed ! i)) probability = Inr (k, nrm, med, xp, yp)"
  shows "has_pdf t' ! i \<and> kde_pdf t' ! i = Some k \<and> pdf_norm t' ! i = nrm \<and>
         median_flux t' ! i = med \<and> x_plot t' ! i = Some xp \<and> y_plot t' ! i = Some yp \<and>
         yp \<noteq> [] \<and> max_y t' ! i = Max (set yp)"
proof -
  let ?xdata = "map (\<lambda>x. x / nanoJy) (model_sed ! i)"
  from assms(1) obtain lo hi where lh: "np_min ?xdata = Inr lo" "np_max ?xdata = Inr hi"
    by (auto simp: marginal_band_def Let_def and_then_def split: sum.splits)
  have nz: "nanoJy \<noteq> 0" by (simp add: nanoJy_def)
  have "a / nanoJy \<in> set ?xdata" "b / nanoJy \<in> set ?xdata" "a / nanoJy \<noteq> b / nanoJy"
    using assms(4,5,6) nz by auto
  from nondegenerate_min_max[OF this lh] have ne: "lo \<noteq> hi" .
  from assms(1) lh ne assms(7) obtain my where my: "np_max yp = Inr my"
    by (auto simp: marginal_band_def Let_def and_then_def split: sum.splits)
  from np_max_Inr[OF my] have yp: "yp \<noteq> []" "my = Max (set yp)" by simp_all
  from assms(1) lh ne assms(7) my yp assms(2,3) show ?thesis
    by (auto simp: marginal_band_def Let_def and_then_def arrays_of_length_def)
qed

lemma arrays_of_length_init: "arrays_of_length n (marginal_init n)"
  by (simp add: arrays_of_length_def marginal_init_def)

lemma marginal_band_degenerate_entry:
  assumes "marginal_band pvp probability model_sed i t = Inr t'" "arrays_of_length n t" "i < n"
    and "model_sed ! i \<noteq> []" "\<forall>x \<in> set (model_sed ! i). x = c"
  shows "\<not> has_pdf t' ! i \<and> median_flux t' ! i = c / nanoJy"
  using assms(1,2,3) unfolding marginal_band_degenerate[OF assms(4,5)]
  by (auto simp: arrays_of_length_def)

lemma marginal_bands_parts:
  assumes "marginal_bands pvp probability model_sed wl = Inr (st, drawn)"
  shows "\<exists>delta_wl.
           for_loop [0..<length model_sed] (marginal_band pvp probability model_sed)
             (marginal_init (length model_sed)) = Inr st \<and>
           delta_wl_of wl = Inr delta_wl \<and>
           map_result (render_band wl delta_wl st) [0..<length model_sed] = Inr drawn"
  using assms
  by (auto simp: marginal_bands_def Let_def and_then_def split: sum.splits)

lemma render_band_of_loop:
  assumes "marginal_bands pvp probability model_sed wl = Inr (st, drawn)" "i < length model_sed"
  shows "\<exists>delta_wl. delta_wl_of wl = Inr delta_wl \<and> render_band wl delta_wl st i = Inr (drawn ! i)"
proof -
  from marginal_bands_parts[OF assms(1)] obtain delta_wl where
    d: "delta_wl_of wl = Inr delta_wl"
    and m: "map_result (render_band wl delta_wl st) [0..<length model_sed] = Inr drawn"
    by blast
  from map_result_nth[OF m] assms(2) have "render_band wl delta_wl st i = Inr (drawn ! i)"
    by auto
  with d show ?thesis by blast
qed

lemma degenerate_after_loop:
  assumes "marginal_bands pvp probability model_sed wl = Inr (st, drawn)" "i < length model_sed"
    and "model_sed ! i \<noteq> []" "\<forall>x \<in> set (model_sed ! i). x = c"
  shows "\<not> has_pdf st ! i \<and> median_flux st ! i = c / nanoJy"
proof -
  let ?n = "length model_sed"
  from marginal_bands_parts[OF assms(1)]
  have loop: "for_loop [0..<?n] (marginal_band pvp probability model_sed) (marginal_init ?n) = Inr st"
    by blast
  show ?thesis
  proof (rule for_loop_establish[where I = "arrays_of_length ?n" and i = i, OF loop])
    show "arrays_of_length ?n (marginal_init ?n)" by (rule arrays_of_length_init)
    show "distinct [0..<?n]" by simp
    show "i \<in> set [0..<?n] \<or> (\<not> has_pdf (marginal_init ?n) ! i \<and>
            median_flux (marginal_init ?n) ! i = c / nanoJy)"
      using assms(2) by simp
  next
    fix j t t' assume "j \<in> set [0..<?n]" "arrays_of_length ?n t"
      "marginal_band pvp probability model_sed j t = Inr t'"
    then show "arrays_of_length ?n t'" using marginal_band_frame(1) by blast
  next
    fix t t' assume "arrays_of_length ?n t" "marginal_band pvp probability model_sed i t = Inr t'"
    then show "\<not> has_pdf t' ! i \<and> median_flux t' ! i = c / nanoJy"
      using marginal_band_degenerate_entry[of pvp probability model_sed i t t' ?n c]
        assms(2,3,4) by blast
  next
    fix j t t' assume "j \<in> set [0..<?n]" "j \<noteq> i" "arrays_of_length ?n t"
      "\<not> has_pdf t ! i \<and> median_flux t ! i = c / nanoJy"
      "marginal_band pvp probability model_sed j t = Inr t'"
    then show "\<not> has_pdf t' ! i \<and> median_flux t' ! i = c / nanoJy"
      using marginal_band_frame(2)[of pvp probability model_sed j t t' ?n i] by simp
  qed
qed

lemma violin_after_loop:
  assumes "marginal_bands pvp probability model_sed wl = Inr (st, drawn)" "i < length model_sed"
    and "a \<in> set (model_sed ! i)" "b \<in> set (model_sed ! i)" "a \<noteq> b"
    and "pvp (map (\<lambda>x. x / nanoJy) (model_sed ! i)) probability = Inr (k, nrm, med, xp, yp)"
  shows "has_pdf st ! i \<and> kde_pdf st ! i = Some k \<and> pdf_norm st ! i = nrm \<and>
         median_flux st ! i = med \<and> x_plot st ! i = Some xp \<and> y_plot st ! i = Some yp \<and>
         yp \<noteq> [] \<and> max_y st ! i = Max (set yp)"
    (is "?Q st")
proof -
  let ?n = "length model_sed"
  from marginal_bands_parts[OF assms(1)]
  have loop: "for_loop [0..<?n] (marginal_band pvp probability model_sed) (marginal_init ?n) = Inr st"
    by blast
  show ?thesis
  proof (rule for_loop_establish[where I = "arrays_of_length ?n" and i = i and Q = ?Q, OF loop])
    show "arrays_of_length ?n (marginal_init ?n)" by (rule arrays_of_length_init)
    show "distinct [0..<?n]" by simp
    show "i \<in> set [0..<?n] \<or> ?Q (marginal_init ?n)" using assms(2) by simp
  next
    fix j t t' assume "j \<in> set [0..<?n]" "arrays_of_length ?n t"
      "marginal_band pvp probability model_sed j t = Inr t'"
    then show "arrays_of_length ?n t'" using marginal_band_frame(1) by blast
  next
    fix t t' assume "arrays_of_length ?n t" "marginal_band pvp probability model_sed i t = Inr t'"
    then show "?Q t'"
      using marginal_band_violin[of pvp probability model_sed i t t' ?n a b k nrm med xp yp]
        assms(2,3,4,5,6) by blast
  next
    fix j t t' assume "j \<in> set [0..<?n]" "j \<noteq> i" "arrays_of_length ?n t" "?Q t"
      "marginal_band pvp probability model_sed j t = Inr t'"
    then show "?Q t'"
      using marginal_band_frame(2)[of pvp probability model_sed j t t' ?n i] by simp
  qed
qed

lemma slice_single: "0 < i \<Longrightarrow> i \<le> length xs \<Longrightarrow> slice (i - 1) i xs = [xs ! (i - 1)]"
proof -
  assume a: "0 < i" "i \<le> length xs"
  then have "drop (i - 1) xs \<noteq> []" by simp
  then obtain y ys where d: "drop (i - 1) xs = y # ys" by (cases "drop (i - 1) xs") auto
  have "y = xs ! (i - 1)" using d a by (metis Cons_nth_drop_Suc Suc_pred' less_eq_Suc_le list.inject)
  with d a show ?thesis by (simp add: slice_def)
qed

lemma wl_diff_nth:
  assumes "j < length (wl_diff wl)"
  shows "wl_diff wl ! j = wl ! Suc j - wl ! j"
proof -
  from assms have "j < length wl - 1" by (simp add: wl_diff_def vsub_def)
  then show ?thesis by (simp add: wl_diff_def vsub_def nth_tl nth_butlast)
qed

lemma dwl_of_value:
  assumes "delta_wl_of wl = Inr delta_wl" "dwl_of delta_wl i = Inr dwl"
  shows "dwl = (if i \<le> 1 then wl ! 1 - wl ! 0 else wl ! (i - 1) - wl ! (i - 2))"
proof -
  from assms(1) obtain d ds where d: "wl_diff wl = d # ds" "delta_wl = d # d # ds"
    by (auto simp: delta_wl_of_def split: list.splits)
  from assms(2) have i: "i < length delta_wl"
    by (auto simp: dwl_of_def split: if_splits)
  have first: "d = wl ! 1 - wl ! 0"
    using wl_diff_nth[of 0 wl] d(1) by simp
  show ?thesis
  proof (cases "i \<le> 1")
    case True
    then have "delta_wl ! i = d" using d(2) by (cases i) auto
    with True assms(2) i first show ?thesis by (auto simp: dwl_of_def)
  next
    case False
    then have i1: "1 < i" by simp
    have s: "slice (i - 1) i delta_wl = [delta_wl ! (i - 1)]"
      using slice_single[of i delta_wl] i i1 by simp
    have "dwl = delta_wl ! (i - 1)"
      using assms(2) i i1 s by (simp add: dwl_of_def np_min_def)
    moreover have "delta_wl ! (i - 1) = wl_diff wl ! (i - 2)"
      using d i1 by (cases i) (auto simp: nth_Cons' numeral_2_eq_2)
    moreover have "i - 2 < length (wl_diff wl)" using i d i1 by simp
    ultimately have "dwl = wl ! Suc (i - 2) - wl ! (i - 2)" using wl_diff_nth by simp
    moreover have "Suc (i - 2) = i - 1" using i1 by simp
    ultimately show ?thesis using False by simp
  qed
qed

lemma Max_scaled:
  assumes "ys \<noteq> []" "0 \<le> (w::real)"
  shows "Max ((\<lambda>y. y * w) ` set ys) = Max (set ys) * w"
proof -
  have "mono (\<lambda>y. y * w)" using assms(2) by (simp add: mono_def mult_right_mono)
  from mono_Max_commute[OF this, of "set ys"] assms(1) show ?thesis by simp
qed

lemma render_band_violin:
  assumes "has_pdf st ! i" "x_plot st ! i = Some xp" "y_plot st ! i = Some yp"
    "kde_pdf st ! i = Some k" "dwl_of delta_wl i = Inr dwl"
    "np_divide (4 / 10 * dwl) (max_y st ! i) = Some w" "i < length wl" "length yp = length xp"
  shows "render_band wl delta_wl st i =
    Inr [Fill_betweenx xp
           (map2 (\<lambda>g y. Some (g - y * w)) (repeat (wl ! i) (length xp)) yp)
           (map2 (\<lambda>g y. Some (g + y * w)) (repeat (wl ! i) (length xp)) yp),
         Plot_line (map_option (\<lambda>l. wl ! i - l)
                      (Option.bind (np_divide (k (median_flux st ! i)) (pdf_norm st ! i))
                         (\<lambda>q. Some (q * w))),
                    map_option (\<lambda>l. wl ! i + l)
                      (Option.bind (np_divide (k (median_flux st ! i)) (pdf_norm st ! i))
                         (\<lambda>q. Some (q * w))))
                   (median_flux st ! i, median_flux st ! i),
         Plot_marker (wl ! i) (median_flux st ! i)]"
  using assms by (simp add: render_band_def Let_def)

lemma upt3: "[0..<3] = [0, 1, 2]"
  by (simp add: upt_rec)

lemma example_marginal_runs:
  "\<exists>st drawn. marginal_bands uniform_violin [1, 1]
      [[1 / 10 ^ 32, 3 / 10 ^ 32], [2 / 10 ^ 32, 2 / 10 ^ 32], [1 / 10 ^ 32, 5 / 10 ^ 32]] [1, 3, 4]
    = Inr (st, drawn)"
  by (simp add: marginal_bands_def upt3 marginal_band_def marginal_init_def np_min_def np_max_def
        wl_diff_def vsub_def nanoJy_def uniform_violin_def uniform_pdf_def delta_wl_of_def
        render_band_def dwl_of_def slice_def np_divide_def repeat_def and_then_def Let_def)

text \<open>
  C3. For a band whose posterior-draw fluxes are all the same value, the round of the first loop
  returns whatever the density estimator would do (it is not called), records \<open>False\<close> in
  \<open>has_pdf\<close> and the constant itself, in nanoJy, as the band's median; and in every run of
  the two loops that returns, the only thing drawn for the band is the point marker at its
  effective wavelength and that constant.
\<close>

theorem degenerate_band_is_point_marker:
  assumes "i < length model_sed" and "model_sed ! i \<noteq> []"
    and "\<forall>x \<in> set (model_sed ! i). x = c"
  shows "(\<forall>st. marginal_band pvp probability model_sed i st =
            Inr (st\<lparr>min_flux := (min_flux st)[i := c / nanoJy],
                     max_flux := (max_flux st)[i := c / nanoJy],
                     has_pdf := (has_pdf st)[i := False],
                     median_flux := (median_flux st)[i := c / nanoJy]\<rparr>)) \<and>
         (\<forall>st drawn. marginal_bands pvp probability model_sed wl = Inr (st, drawn) \<longrightarrow>
            \<not> has_pdf st ! i \<and> median_flux st ! i = c / nanoJy \<and>
            drawn ! i = [Plot_marker (wl ! i) (c / nanoJy)])"
proof (intro conjI allI impI)
  fix st
  show "marginal_band pvp probability model_sed i st =
            Inr (st\<lparr>min_flux := (min_flux st)[i := c / nanoJy],
                     max_flux := (max_flux st)[i := c / nanoJy],
                     has_pdf := (has_pdf st)[i := False],
                     median_flux := (median_flux st)[i := c / nanoJy]\<rparr>)"
    by (rule marginal_band_degenerate[OF assms(2,3)])
next
  fix st drawn
  assume run: "marginal_bands pvp probability model_sed wl = Inr (st, drawn)"
  from degenerate_after_loop[OF run assms]
  have d: "\<not> has_pdf st ! i" "median_flux st ! i = c / nanoJy" by simp_all
  from render_band_of_loop[OF run assms(1)] obtain delta_wl where
    r: "render_band wl delta_wl st i = Inr (drawn ! i)" by blast
  from r d have "drawn ! i = [Plot_marker (wl ! i) (c / nanoJy)]"
    by (auto simp: render_band_def and_then_def split: sum.splits if_splits)
  with d show "\<not> has_pdf st ! i" "median_flux st ! i = c / nanoJy"
    "drawn ! i = [Plot_marker (wl ! i) (c / nanoJy)]" by simp_all
qed

theorem degenerate_band_is_point_marker_witness:
  "let model_sed = [[1 / 10 ^ 32, 3 / 10 ^ 32], [2 / 10 ^ 32, 2 / 10 ^ 32], [1 / 10 ^ 32, 5 / 10 ^ 32]]
   in 1 < length model_sed \<and> model_sed ! 1 \<noteq> [] \<and> set (model_sed ! 1) = {2 / 10 ^ 32} \<and>
      (\<exists>st drawn. marginal_bands uniform_violin [1, 1] model_sed [1, 3, 4] = Inr (st, drawn) \<and>
         \<not> has_pdf st ! 1 \<and> median_flux st ! 1 = 2 \<and> drawn ! 1 = [Plot_marker 3 2])"
proof -
  define model_sed :: "real list list" where
    "model_sed = [[1 / 10 ^ 32, 3 / 10 ^ 32], [2 / 10 ^ 32, 2 / 10 ^ 32], [1 / 10 ^ 32, 5 / 10 ^ 32]]"
  have h: "1 < length model_sed" "model_sed ! 1 \<noteq> []" "\<forall>x \<in> set (model_sed ! 1). x = 2 / 10 ^ 32"
    by (simp_all add: model_sed_def)
  from example_marginal_runs obtain st drawn where
    run: "marginal_bands uniform_violin [1, 1] model_sed [1, 3, 4] = Inr (st, drawn)"
    unfolding model_sed_def by blast
  from degenerate_band_is_point_marker[OF h, of uniform_violin "[1, 1]" "[1, 3, 4]"] run
  have "\<not> has_pdf st ! 1 \<and> median_flux st ! 1 = 2 / 10 ^ 32 / nanoJy \<and>
        drawn ! 1 = [Plot_marker ([1, 3, 4] ! 1) (2 / 10 ^ 32 / nanoJy)]"
    by blast
  then have "\<not> has_pdf st ! 1 \<and> median_flux st ! 1 = 2 \<and> drawn ! 1 = [Plot_marker 3 2]"
    by (simp add: nanoJy_def)
  moreover have "set (model_sed ! 1) = {2 / 10 ^ 32}" by (simp add: model_sed_def)
  ultimately show ?thesis using h(1,2) run unfolding Let_def model_sed_def[symmetric] by blast
qed

text \<open>
  What lines 236 to 251 draw for a band whose posterior-draw fluxes are not all the same, in
  every run that returns and for every density estimator: the violin lies between
  \<open>wl_eff - y * w\<close> and \<open>wl_eff + y * w\<close> for the density \<open>y\<close> at each support value,
  with one \<open>w\<close> for the band, so it is symmetric about the effective wavelength and its
  half-width is proportional to the density. With a positive maximum density and a spacing
  \<open>dwl\<close> that is not negative, the largest half-width is 40% of \<open>dwl\<close>. The spacing is
  the difference of the first two wavelengths for the first two bands, and for every later band
  the difference of the two wavelengths before it: the minimum of line 238 is taken over one
  number.
\<close>

lemma violin_half_width_of_band:
  assumes "marginal_bands pvp probability model_sed wl = Inr (st, drawn)"
    and "i < length model_sed"
    and "a \<in> set (model_sed ! i)" and "b \<in> set (model_sed ! i)" and "a \<noteq> b"
    and "pvp (map (\<lambda>x. x / nanoJy) (model_sed ! i)) probability = Inr (k, nrm, med, xp, yp)"
    and "0 < Max (set yp)"
  shows "\<exists>dwl left right line.
           drawn ! i = [Fill_betweenx xp left right, line, Plot_marker (wl ! i) med] \<and>
           length xp = length yp \<and> length left = length yp \<and> length right = length yp \<and>
           (\<forall>j < length yp.
              left ! j = Some (wl ! i - yp ! j * (4 / 10 * dwl / Max (set yp))) \<and>
              right ! j = Some (wl ! i + yp ! j * (4 / 10 * dwl / Max (set yp)))) \<and>
           (0 \<le> dwl \<longrightarrow>
              Max ((\<lambda>y. y * (4 / 10 * dwl / Max (set yp))) ` set yp) = 4 / 10 * dwl) \<and>
           dwl = (if i \<le> 1 then wl ! 1 - wl ! 0 else wl ! (i - 1) - wl ! (i - 2))"
proof -
  from violin_after_loop[OF assms(1-6)]
  have q: "has_pdf st ! i" "kde_pdf st ! i = Some k" "pdf_norm st ! i = nrm"
    "median_flux st ! i = med" "x_plot st ! i = Some xp" "y_plot st ! i = Some yp"
    "yp \<noteq> []" "max_y st ! i = Max (set yp)" by simp_all
  from render_band_of_loop[OF assms(1,2)] obtain delta_wl where
    dl: "delta_wl_of wl = Inr delta_wl" and r: "render_band wl delta_wl st i = Inr (drawn ! i)"
    by blast
  from r obtain dwl where dwl: "dwl_of delta_wl i = Inr dwl"
    by (auto simp: render_band_def and_then_def split: sum.splits)
  define w where "w = 4 / 10 * dwl / Max (set yp)"
  have w: "np_divide (4 / 10 * dwl) (max_y st ! i) = Some w"
    using assms(7) q(8) by (simp add: np_divide_def w_def)
  from r dwl q w have len: "length yp = length xp" and wl: "i < length wl"
    by (auto simp: render_band_def and_then_def Let_def split: sum.splits if_splits)
  define left where "left = map2 (\<lambda>g y. Some (g - y * w)) (repeat (wl ! i) (length xp)) yp"
  define right where "right = map2 (\<lambda>g y. Some (g + y * w)) (repeat (wl ! i) (length xp)) yp"
  define line where "line = Plot_line (map_option (\<lambda>l. wl ! i - l)
                      (Option.bind (np_divide (k (median_flux st ! i)) (pdf_norm st ! i))
                         (\<lambda>q. Some (q * w))),
                    map_option (\<lambda>l. wl ! i + l)
                      (Option.bind (np_divide (k (median_flux st ! i)) (pdf_norm st ! i))
                         (\<lambda>q. Some (q * w))))
                   (median_flux st ! i, median_flux st ! i)"
  have "Inr (drawn ! i) = (Inr [Fill_betweenx xp left right, line, Plot_marker (wl ! i) med]
          :: py_error + artist list)"
    unfolding r[symmetric] render_band_violin[OF q(1,5,6,2) dwl w wl len] left_def right_def
      line_def q(4) ..
  then have dr: "drawn ! i = [Fill_betweenx xp left right, line, Plot_marker (wl ! i) med]"
    by simp
  have ll: "length left = length yp" "length right = length yp"
    using len by (simp_all add: left_def right_def repeat_def)
  have edges: "\<forall>j < length yp. left ! j = Some (wl ! i - yp ! j * w) \<and>
                                right ! j = Some (wl ! i + yp ! j * w)"
    using len by (simp add: left_def right_def repeat_def)
  have mx: "Max ((\<lambda>y. y * w) ` set yp) = 4 / 10 * dwl" if "0 \<le> dwl"
  proof -
    have "0 \<le> w" using that assms(7) by (simp add: w_def)
    from Max_scaled[OF q(7) this] show ?thesis using assms(7) by (simp add: w_def)
  qed
  show ?thesis
  proof (intro exI conjI)
    show "drawn ! i = [Fill_betweenx xp left right, line, Plot_marker (wl ! i) med]" by (rule dr)
    show "length xp = length yp" using len by simp
    show "length left = length yp" by (rule ll(1))
    show "length right = length yp" by (rule ll(2))
    show "\<forall>j < length yp.
              left ! j = Some (wl ! i - yp ! j * (4 / 10 * dwl / Max (set yp))) \<and>
              right ! j = Some (wl ! i + yp ! j * (4 / 10 * dwl / Max (set yp)))"
      using edges unfolding w_def .
    show "0 \<le> dwl \<longrightarrow>
              Max ((\<lambda>y. y * (4 / 10 * dwl / Max (set yp))) ` set yp) = 4 / 10 * dwl"
      by (rule impI) (rule mx[unfolded w_def])
    show "dwl = (if i \<le> 1 then wl ! 1 - wl ! 0 else wl ! (i - 1) - wl ! (i - 2))"
      by (rule dwl_of_value[OF dl dwl])
  qed
qed

text \<open>
  The third of three bands at the wavelengths 1, 3 and 4: its spacing is the difference 2 of
  the first two wavelengths, and its violin reaches from 3.2 to 4.8.
\<close>

lemma three_violins_run:
  "\<exists>st drawn. marginal_bands uniform_violin [1, 1]
      [[1 / 10 ^ 32, 3 / 10 ^ 32], [2 / 10 ^ 32, 4 / 10 ^ 32], [1 / 10 ^ 32, 5 / 10 ^ 32]] [1, 3, 4]
    = Inr (st, drawn)"
  by (simp add: marginal_bands_def upt3 marginal_band_def marginal_init_def np_min_def np_max_def
        wl_diff_def vsub_def nanoJy_def uniform_violin_def uniform_pdf_def delta_wl_of_def
        render_band_def dwl_of_def slice_def np_divide_def repeat_def and_then_def Let_def)

lemma violin_half_width_of_third_band:
  "\<exists>st drawn left right line.
     marginal_bands uniform_violin [1, 1]
       [[1 / 10 ^ 32, 3 / 10 ^ 32], [2 / 10 ^ 32, 4 / 10 ^ 32], [1 / 10 ^ 32, 5 / 10 ^ 32]] [1, 3, 4]
     = Inr (st, drawn) \<and>
     drawn ! 2 = [Fill_betweenx [1, 5] left right, line, Plot_marker 4 3] \<and>
     left ! 0 = Some (16 / 5) \<and> right ! 0 = Some (24 / 5)"
proof -
  define model_sed :: "real list list" where
    "model_sed = [[1 / 10 ^ 32, 3 / 10 ^ 32], [2 / 10 ^ 32, 4 / 10 ^ 32], [1 / 10 ^ 32, 5 / 10 ^ 32]]"
  have h: "2 < length model_sed" "1 / 10 ^ 32 \<in> set (model_sed ! 2)" "5 / 10 ^ 32 \<in> set (model_sed ! 2)"
    "(1 / 10 ^ 32 :: real) \<noteq> 5 / 10 ^ 32"
    by (simp_all add: model_sed_def)
  have v: "uniform_violin (map (\<lambda>x. x / nanoJy) (model_sed ! 2)) [1, 1]
        = Inr (uniform_pdf 1 5, 1 / 4, 3, [1, 5], [1 / 4, 1 / 4])"
    by (simp add: model_sed_def uniform_violin_def uniform_pdf_def np_min_def np_max_def nanoJy_def)
  have m: "0 < Max (set [1 / 4, 1 / 4 :: real])" by simp
  from three_violins_run obtain st drawn where
    run: "marginal_bands uniform_violin [1, 1] model_sed [1, 3, 4] = Inr (st, drawn)"
    unfolding model_sed_def by blast
  from violin_half_width_of_band[OF run h v m]
  obtain dwl left right line where
    c: "drawn ! 2 = [Fill_betweenx [1, 5] left right, line, Plot_marker ([1, 3, 4] ! 2) 3]"
      "\<forall>j < length [1 / 4, 1 / 4 :: real].
          left ! j = Some ([1, 3, 4] ! 2 - [1 / 4, 1 / 4] ! j * (4 / 10 * dwl / Max (set [1 / 4, 1 / 4]))) \<and>
          right ! j = Some ([1, 3, 4] ! 2 + [1 / 4, 1 / 4] ! j * (4 / 10 * dwl / Max (set [1 / 4, 1 / 4])))"
      "dwl = (if (2::nat) \<le> 1 then [1, 3, 4] ! 1 - [1, 3, 4] ! 0
              else [1, 3, 4] ! (2 - 1) - [1, 3, 4] ! (2 - 2))"
    by blast
  from c(3) have d: "dwl = 2" by simp
  from c(2) have e: "left ! 0 = Some (16 / 5)" "right ! 0 = Some (24 / 5)"
    unfolding d by simp_all
  from c(1) have dr: "drawn ! 2 = [Fill_betweenx [1, 5] left right, line, Plot_marker 4 3]" by simp
  from run dr e show ?thesis unfolding model_sed_def by blast
qed

text \<open>
  C5. The claim is that the largest half-width of every violin is 40% of the smallest spacing of
  the effective wavelengths. For three bands at the wavelengths 1, 3 and 4, none of them with a
  constant sample, the smallest spacing is 1 (line 201 computes it and nothing uses it) and
  \<open>delta_wl\<close> is 2, 2, 1; lines 236 to 238 select the spacing 2 for each of the three bands,
  for the third one as the minimum of the one-element slice \<^verbatim>\<open>delta_wl[1:2]\<close>. Every violin
  has the half-width 0.8 and not 0.4: the second reaches from 2.2 to 3.8, the third from 3.2 to
  4.8, and the two overlap.
\<close>

theorem violin_spacing_misses_minimum:
  "map_sum id snd (marginal_bands uniform_violin [1, 1]
      [[1 / 10 ^ 32, 3 / 10 ^ 32], [2 / 10 ^ 32, 4 / 10 ^ 32], [1 / 10 ^ 32, 5 / 10 ^ 32]] [1, 3, 4])
   = Inr [[Fill_betweenx [1, 3] [Some (1 / 5), Some (1 / 5)] [Some (9 / 5), Some (9 / 5)],
           Plot_line (Some (- (3 / 5)), Some (13 / 5)) (2, 2), Plot_marker 1 2],
          [Fill_betweenx [2, 4] [Some (11 / 5), Some (11 / 5)] [Some (19 / 5), Some (19 / 5)],
           Plot_line (Some (7 / 5), Some (23 / 5)) (3, 3), Plot_marker 3 3],
          [Fill_betweenx [1, 5] [Some (16 / 5), Some (16 / 5)] [Some (24 / 5), Some (24 / 5)],
           Plot_line (Some (4 / 5), Some (36 / 5)) (3, 3), Plot_marker 4 3]] \<and>
   np_min (wl_diff [1, 3, 4]) = Inr 1 \<and>
   delta_wl_of [1, 3, 4] = Inr [2, 2, 1] \<and>
   map (dwl_of [2, 2, 1]) [0, 1, 2] = [Inr 2, Inr 2, Inr 2] \<and>
   (24 / 5 - 4 :: real) = 4 / 10 * 2 \<and> (24 / 5 - 4 :: real) \<noteq> 4 / 10 * 1 \<and>
   (16 / 5 :: real) < 19 / 5"
  by (simp add: marginal_bands_def upt3 marginal_band_def marginal_init_def np_min_def np_max_def
        wl_diff_def vsub_def nanoJy_def uniform_violin_def uniform_pdf_def delta_wl_of_def
        render_band_def dwl_of_def slice_def np_divide_def repeat_def and_then_def Let_def)

end
